theory Spec2Isabelle
  imports Complex_Main "HOL-Library.While_Combinator"
begin

section \<open>Beam analysis: data model\<close>

text \<open>
  The program is \<^verbatim>\<open>src/js/beam-analysis.js\<close>. JavaScript numbers are modelled by
  the rationals (\<^typ>\<open>rat\<close>): every finite double is a rational, and the arithmetic
  of the model is exact, so rounding errors of the floating-point operations are not
  represented. A quotient with divisor zero (\<^verbatim>\<open>NaN\<close> or an infinity in the
  program) is made explicit where the control flow depends on it (\<open>js_div\<close> below).
\<close>

record Material =
  name :: string
  EI :: rat

text \<open>
  \<^verbatim>\<open>Beam\<close>: the constructor stores the two spans and the material; the analyzers also
  read a property \<^verbatim>\<open>j2\<close> of the beam, which the caller has to set. Of the material
  they read \<^verbatim>\<open>properties.EI\<close> only, which is the field \<open>EI\<close> above.
\<close>

record Beam =
  primarySpan :: rat
  secondarySpan :: rat
  material :: Material
  j2 :: rat

text \<open>
  The object an analyzer returns. \<^verbatim>\<open>xdata\<close> and \<^verbatim>\<open>ydata\<close> hold the strings
  produced by \<^verbatim>\<open>toFixed(2)\<close>; an entry of the model is the number such a string
  denotes.
\<close>

record Equation =
  analys :: string
  xdata :: "rat list"
  ydata :: "rat list"

text \<open>
  \<^verbatim>\<open>Number.prototype.toFixed(2)\<close>: the sign is split off, and the magnitude is
  rounded to the nearest multiple of \<open>1/100\<close>, the larger one on a tie.
\<close>

definition toFixed2 :: "rat \<Rightarrow> rat" where
  "toFixed2 v =
     (if v < 0 then - (of_int \<lfloor>(- v) * 100 + 1 / 2\<rfloor> / 100)
      else of_int \<lfloor>v * 100 + 1 / 2\<rfloor> / 100)"

section \<open>Simply supported analyzer\<close>

definition ss_deflection_v :: "rat \<Rightarrow> rat \<Rightarrow> rat \<Rightarrow> rat \<Rightarrow> rat \<Rightarrow> rat" where
  "ss_deflection_v w l Ei j x =
     - ((w * x) / (24 * Ei / 1000 ^ 3)) * (l ^ 3 - 2 * l * x ^ 2 + x ^ 3) * j * 1000"

definition ss_bending_v :: "rat \<Rightarrow> rat \<Rightarrow> rat \<Rightarrow> rat" where
  "ss_bending_v w l x = (w * x / 2) * (l - x) * (- 1)"

definition ss_shear_v :: "rat \<Rightarrow> rat \<Rightarrow> rat \<Rightarrow> rat" where
  "ss_shear_v w l x = w * (l / 2 - x)"

text \<open>
  The three methods run the same loop
  \<^verbatim>\<open>for (let x = 0; x <= beam.primarySpan; x += beam.primarySpan/100)\<close>
  and differ in the expression for \<^verbatim>\<open>v\<close> only, which is the parameter \<open>f\<close> here.
  \<^verbatim>\<open>unshift\<close> puts the new entry in front.
\<close>

record ss_state =
  ss_x :: rat
  ss_yarray :: "rat list"
  ss_xarray :: "rat list"

definition ss_body :: "(rat \<Rightarrow> rat) \<Rightarrow> rat \<Rightarrow> ss_state \<Rightarrow> ss_state" where
  "ss_body f l st =
     \<lparr>ss_x = ss_x st + l / 100,
      ss_yarray = toFixed2 (f (ss_x st)) # ss_yarray st,
      ss_xarray = toFixed2 (ss_x st) # ss_xarray st\<rparr>"

definition ss_loop :: "(rat \<Rightarrow> rat) \<Rightarrow> rat \<Rightarrow> ss_state option" where
  "ss_loop f l =
     while_option (\<lambda>st. ss_x st \<le> l) (ss_body f l)
       \<lparr>ss_x = 0, ss_yarray = [], ss_xarray = []\<rparr>"

text \<open>A method returns \<open>None\<close> when its loop does not end.\<close>

definition ss_getDeflectionEquation :: "Beam \<Rightarrow> rat \<Rightarrow> Equation option" where
  "ss_getDeflectionEquation beam load =
     (let j = j2 beam; w = load; l = primarySpan beam; Ei = EI (material beam) in
      map_option
        (\<lambda>st. \<lparr>analys = ''deflection'', xdata = rev (ss_xarray st), ydata = rev (ss_yarray st)\<rparr>)
        (ss_loop (ss_deflection_v w l Ei j) (primarySpan beam)))"

definition ss_getBendingMomentEquation :: "Beam \<Rightarrow> rat \<Rightarrow> Equation option" where
  "ss_getBendingMomentEquation beam load =
     (let w = load in
      map_option
        (\<lambda>st. \<lparr>analys = ''bendingmoment'', xdata = rev (ss_xarray st), ydata = rev (ss_yarray st)\<rparr>)
        (ss_loop (ss_bending_v w (primarySpan beam)) (primarySpan beam)))"

definition ss_getShearForceEquation :: "Beam \<Rightarrow> rat \<Rightarrow> Equation option" where
  "ss_getShearForceEquation beam load =
     (let w = load in
      map_option
        (\<lambda>st. \<lparr>analys = ''shearforce'', xdata = rev (ss_xarray st), ydata = rev (ss_yarray st)\<rparr>)
        (ss_loop (ss_shear_v w (primarySpan beam)) (primarySpan beam)))"

section \<open>Two-span analyzer: reactions\<close>

text \<open>
  Each of the three methods starts with the same four assignments to
  \<^verbatim>\<open>m1\<close>, \<^verbatim>\<open>r1\<close>, \<^verbatim>\<open>r3\<close> and \<^verbatim>\<open>r2\<close>. Their divisors \<open>l1\<close>, \<open>l2\<close> and
  \<open>8 * (l1 + l2)\<close> are non-zero for positive spans, which the statements about this
  analyzer assume.
\<close>

definition tsu_m1 :: "rat \<Rightarrow> rat \<Rightarrow> rat \<Rightarrow> rat" where
  "tsu_m1 w l1 l2 = - ((w * l2 ^ 3) + (w * l1 ^ 3)) / (8 * (l1 + l2))"

definition tsu_r1 :: "rat \<Rightarrow> rat \<Rightarrow> rat \<Rightarrow> rat" where
  "tsu_r1 w l1 l2 = (tsu_m1 w l1 l2 / l1) + ((w * l1) / 2)"

definition tsu_r3 :: "rat \<Rightarrow> rat \<Rightarrow> rat \<Rightarrow> rat" where
  "tsu_r3 w l1 l2 = (tsu_m1 w l1 l2 / l2) + ((w * l2) / 2)"

definition tsu_r2 :: "rat \<Rightarrow> rat \<Rightarrow> rat \<Rightarrow> rat" where
  "tsu_r2 w l1 l2 = (w * l1) + (w * l2) - tsu_r1 w l1 l2 - tsu_r3 w l1 l2"

section \<open>Two-span analyzer: stepping and sample values\<close>

text \<open>
  The quotients \<^verbatim>\<open>r1 / w\<close> and \<^verbatim>\<open>r3 / w\<close> are not finite numbers when the
  load is zero. \<open>None\<close> stands for such a value: it is different from every position
  (\<^verbatim>\<open>!==\<close> holds, \<^verbatim>\<open>===\<close> fails) and no position is within a finite distance of it.
\<close>

definition js_div :: "rat \<Rightarrow> rat \<Rightarrow> rat option" where
  "js_div p q = (if q = 0 then None else Some (p / q))"

definition within_le :: "rat \<Rightarrow> rat option \<Rightarrow> rat \<Rightarrow> bool" where
  "within_le x c tol = (case c of None \<Rightarrow> False | Some v \<Rightarrow> \<bar>x - v\<bar> \<le> tol)"

definition within_lt :: "rat \<Rightarrow> rat option \<Rightarrow> rat \<Rightarrow> bool" where
  "within_lt x c tol = (case c of None \<Rightarrow> False | Some v \<Rightarrow> \<bar>x - v\<bar> < tol)"

text \<open>
  \<^verbatim>\<open>calculateValue(x, l, l1, r1, w, mn, r3)\<close> of \<^verbatim>\<open>getDeflectionEquation\<close> and of
  \<^verbatim>\<open>getBendingMomentEquation\<close> (the two copies are the same text). It reads and
  assigns the variables \<^verbatim>\<open>m\<close> and \<^verbatim>\<open>lk\<close> of the enclosing method: they are the
  last two arguments here, and the result is the returned position with their new
  values.
\<close>

definition calculateValue ::
  "rat \<Rightarrow> rat \<Rightarrow> rat \<Rightarrow> rat \<Rightarrow> rat \<Rightarrow> rat \<Rightarrow> rat \<Rightarrow> rat \<Rightarrow> rat \<Rightarrow> rat \<times> rat \<times> rat" where
  "calculateValue x l l1 r1 w mn r3 m lk =
     (let za = js_div r1 w; zb = map_option (\<lambda>q. l - q) (js_div r3 w) in
      if x = 0 then
        (let m' = x + l / 100; lk' = (x + l / 100) - (m' + l / 100) in (x + l / 100, m', lk'))
      else if \<bar>x - l1\<bar> \<le> l / 100 \<and> x - l1 < 0 then (l1, m, x)
      else if x < l1 \<and> Some x \<noteq> za \<and> Some mn \<noteq> za \<and> within_le x za (l / 100) then
        (the za, m, x)
      else if \<bar>x - l\<bar> < l / 100 then (l, m, lk)
      else if x > l1 \<and> Some x \<noteq> zb \<and> Some mn \<noteq> zb \<and> within_lt x zb (l / 100) then
        (the zb, m, x)
      else if Some x = za \<or> Some x = zb then (mn + l / 100, m, x)
      else
        (let lk' = (x + l / 100) - (m + l / 100); m' = x + l / 100 in (x + l / 100, m', lk')))"

definition calculatePoint1 :: "rat \<Rightarrow> rat \<Rightarrow> rat \<Rightarrow> rat \<Rightarrow> rat \<Rightarrow> rat \<Rightarrow> rat" where
  "calculatePoint1 x Ei r1 w l1 j =
     ((x / (24 * Ei / 1000 ^ 3)) *
      ((4 * r1 * x ^ 2) - (w * x ^ 3) + (w * l1 ^ 3) - (4 * r1 * l1 ^ 2))) * 1000 * j"

definition calculatePoint2 :: "rat \<Rightarrow> rat \<Rightarrow> rat \<Rightarrow> rat \<Rightarrow> rat \<Rightarrow> rat \<Rightarrow> rat \<Rightarrow> rat" where
  "calculatePoint2 x r1 r2 l1 w Ei j =
     (let term1 = (r1 * x / 6) * (x ^ 2 - l1 ^ 2);
          term2 = (r2 * x / 6) * (x ^ 2 - 3 * l1 * x + 3 * l1 ^ 2);
          term3 = (r2 * l1 ^ 3) / 6;
          term4 = (w * x / 24) * (x ^ 3 - l1 ^ 3);
          denominator = Ei / 1000 ^ 3
      in ((term1 + term2 - term3 - term4) / denominator) * 1000 * j)"

text \<open>
  \<^verbatim>\<open>calculateRoundedValue\<close>: in \<^verbatim>\<open>-(e).toFixed(2)\<close> the method call binds tighter
  than the minus, so the value is the negated rounding of \<open>e\<close>.
\<close>

definition calculateRoundedValue :: "rat \<Rightarrow> rat \<Rightarrow> rat \<Rightarrow> rat \<Rightarrow> rat \<Rightarrow> rat \<Rightarrow> rat" where
  "calculateRoundedValue x l l1 r1 w r2 =
     (if x = 0 \<or> x = l then 0
      else if x < l1 then - toFixed2 (r1 * x - (1 / 2) * w * x ^ 2)
      else if x > l1 then - toFixed2 ((r1 * x + r2 * (x - l1)) - (1 / 2) * w * x ^ 2)
      else - toFixed2 (r1 * l1 - (1 / 2) * w * l1 ^ 2))"

text \<open>
  The loop \<^verbatim>\<open>for (m = 0; m <= l; m = calculateValue(m, l, l1, r1, w, lk, r3))\<close> with
  its \<^verbatim>\<open>break\<close>. The deflection method and the bending-moment method run the same
  loop; they differ in the expression for \<^verbatim>\<open>y\<close>, the parameter \<open>yf\<close>, which in the
  deflection method reads the counter \<^verbatim>\<open>i\<close>.
\<close>

record tsu_state =
  st_m :: rat
  st_lk :: rat
  st_i :: nat
  st_xarray :: "rat list"
  st_yarray :: "rat list"
  st_break :: bool

definition tsu_init :: tsu_state where
  "tsu_init = \<lparr>st_m = 0, st_lk = 0, st_i = 0, st_xarray = [], st_yarray = [], st_break = False\<rparr>"

definition tsu_cond :: "rat \<Rightarrow> tsu_state \<Rightarrow> bool" where
  "tsu_cond l st \<longleftrightarrow> \<not> st_break st \<and> st_m st \<le> l"

definition tsu_body ::
  "(nat \<Rightarrow> rat \<Rightarrow> rat) \<Rightarrow> rat \<Rightarrow> rat \<Rightarrow> rat \<Rightarrow> rat \<Rightarrow> rat \<Rightarrow> tsu_state \<Rightarrow> tsu_state" where
  "tsu_body yf l l1 r1 r3 w st =
     (let y = yf (st_i st) (st_m st);
          x = st_m st;
          st1 = st\<lparr>st_xarray := toFixed2 x # st_xarray st,
                   st_yarray := toFixed2 y # st_yarray st\<rparr>
      in if st_m st = l then st1\<lparr>st_break := True\<rparr>
         else
           (case calculateValue (st_m st) l l1 r1 w (st_lk st) r3 (st_m st) (st_lk st) of
              (ret, m', lk') \<Rightarrow> st1\<lparr>st_m := ret, st_lk := lk', st_i := st_i st + 1\<rparr>))"

definition tsu_loop ::
  "(nat \<Rightarrow> rat \<Rightarrow> rat) \<Rightarrow> rat \<Rightarrow> rat \<Rightarrow> rat \<Rightarrow> rat \<Rightarrow> rat \<Rightarrow> tsu_state option" where
  "tsu_loop yf l l1 r1 r3 w = while_option (tsu_cond l) (tsu_body yf l l1 r1 r3 w) tsu_init"

definition deflection_y ::
  "rat \<Rightarrow> rat \<Rightarrow> rat \<Rightarrow> rat \<Rightarrow> rat \<Rightarrow> rat \<Rightarrow> nat \<Rightarrow> rat \<Rightarrow> rat" where
  "deflection_y Ei r1 r2 w l1 j i m =
     (if i \<le> 11 then calculatePoint1 m Ei r1 w l1 j else calculatePoint2 m r1 r2 l1 w Ei j)"

definition tsu_getDeflectionEquation :: "Beam \<Rightarrow> rat \<Rightarrow> Equation option" where
  "tsu_getDeflectionEquation beam load =
     (let j = j2 beam; w = load; l1 = primarySpan beam; l2 = secondarySpan beam;
          Ei = EI (material beam); l = l1 + l2;
          r1 = tsu_r1 w l1 l2; r3 = tsu_r3 w l1 l2; r2 = tsu_r2 w l1 l2
      in map_option
           (\<lambda>st. \<lparr>analys = ''deflection'', xdata = rev (st_xarray st), ydata = rev (st_yarray st)\<rparr>)
           (tsu_loop (deflection_y Ei r1 r2 w l1 j) l l1 r1 r3 w))"

definition tsu_getBendingMomentEquation :: "Beam \<Rightarrow> rat \<Rightarrow> Equation option" where
  "tsu_getBendingMomentEquation beam load =
     (let w = load; l1 = primarySpan beam; l2 = secondarySpan beam; l = l1 + l2;
          r1 = tsu_r1 w l1 l2; r3 = tsu_r3 w l1 l2; r2 = tsu_r2 w l1 l2
      in map_option
           (\<lambda>st. \<lparr>analys = ''bendingmoment'', xdata = rev (st_xarray st), ydata = rev (st_yarray st)\<rparr>)
           (tsu_loop (\<lambda>i m. calculateRoundedValue m l l1 r1 w r2) l l1 r1 r3 w))"

text \<open>
  The shear-force method has its own \<^verbatim>\<open>calculateValue(x, m, l1, l)\<close>: the parameter
  \<^verbatim>\<open>m\<close> hides the method's variable \<^verbatim>\<open>m\<close>, so only \<^verbatim>\<open>mn\<close> of the method is
  assigned. The result is the returned position with the new \<^verbatim>\<open>mn\<close>.
\<close>

definition shear_calculateValue :: "rat \<Rightarrow> rat \<Rightarrow> rat \<Rightarrow> rat \<Rightarrow> rat \<Rightarrow> rat \<times> rat" where
  "shear_calculateValue x m l1 l mn =
     (if x = 0 then
        (let m' = x + l / 100; mn' = (x + l / 100) - (m' + l / 100) in (x + l / 100, mn'))
      else if \<bar>x - l1\<bar> \<le> l / 100 \<and> x - l1 < 0 then (l1, x)
      else if x - l1 = 0 \<and> \<bar>m - l1\<bar> \<le> l / 100 \<and> m \<noteq> x then (l1, x)
      else if \<bar>x - l\<bar> < l / 100 then (l, mn)
      else (let mn' = (x + l / 100) - (m + l / 100); m' = x + l / 100 in (x + l / 100, mn')))"

definition calculate :: "rat \<Rightarrow> rat \<Rightarrow> rat \<Rightarrow> rat \<Rightarrow> rat \<Rightarrow> rat \<Rightarrow> rat \<Rightarrow> rat \<Rightarrow> rat" where
  "calculate x m mn r1 r2 w l l1 =
     (if x = 0 then r1
      else if x = l then (r1 + r2) - (w * l)
      else if x = l1 \<and> (m - l1) < 0 then r1 - (w * l1)
      else if x = l1 \<and> (mn - l1) > 0 then (r1 + r2) - (w * l1)
      else if x < l1 then r1 - (w * x)
      else (r1 + r2) - (w * x))"

record shear_state =
  sh_m :: rat
  sh_mn :: rat
  sh_xarray :: "rat list"
  sh_yarray :: "rat list"
  sh_break :: bool

definition shear_init :: shear_state where
  "shear_init = \<lparr>sh_m = 0, sh_mn = 0, sh_xarray = [], sh_yarray = [], sh_break = False\<rparr>"

definition shear_cond :: "rat \<Rightarrow> shear_state \<Rightarrow> bool" where
  "shear_cond l st \<longleftrightarrow> \<not> sh_break st \<and> sh_m st \<le> l"

text \<open>
  The calls are \<^verbatim>\<open>calculate(m, mn, m, r1, r2, w, l, l1)\<close> and
  \<^verbatim>\<open>calculateValue(m, mn, l1, l)\<close>.
\<close>

definition shear_body :: "rat \<Rightarrow> rat \<Rightarrow> rat \<Rightarrow> rat \<Rightarrow> rat \<Rightarrow> shear_state \<Rightarrow> shear_state" where
  "shear_body l l1 r1 r2 w st =
     (let y = calculate (sh_m st) (sh_mn st) (sh_m st) r1 r2 w l l1;
          x = sh_m st;
          st1 = st\<lparr>sh_xarray := toFixed2 x # sh_xarray st,
                   sh_yarray := toFixed2 y # sh_yarray st\<rparr>
      in if sh_m st = l then st1\<lparr>sh_break := True\<rparr>
         else
           (case shear_calculateValue (sh_m st) (sh_mn st) l1 l (sh_mn st) of
              (ret, mn') \<Rightarrow> st1\<lparr>sh_m := ret, sh_mn := mn'\<rparr>))"

definition shear_loop :: "rat \<Rightarrow> rat \<Rightarrow> rat \<Rightarrow> rat \<Rightarrow> rat \<Rightarrow> shear_state option" where
  "shear_loop l l1 r1 r2 w = while_option (shear_cond l) (shear_body l l1 r1 r2 w) shear_init"

definition tsu_getShearForceEquation :: "Beam \<Rightarrow> rat \<Rightarrow> Equation option" where
  "tsu_getShearForceEquation beam load =
     (let w = load; l1 = primarySpan beam; l2 = secondarySpan beam; l = l1 + l2;
          r1 = tsu_r1 w l1 l2; r2 = tsu_r2 w l1 l2
      in map_option
           (\<lambda>st. \<lparr>analys = ''shearforce'', xdata = rev (sh_xarray st), ydata = rev (sh_yarray st)\<rparr>)
           (shear_loop l l1 r1 r2 w))"

section \<open>The facade\<close>

text \<open>
  \<^verbatim>\<open>this.analyzer\<close> is an object literal with the two keys \<^verbatim>\<open>'simply-supported'\<close>
  and \<^verbatim>\<open>'two-span-unequal'\<close>. The read \<^verbatim>\<open>this.analyzer[condition]\<close> is a property
  lookup: besides the object's own keys it finds the properties every object literal
  inherits from \<^verbatim>\<open>Object.prototype\<close>, whose values are functions (an object for
  \<^verbatim>\<open>__proto__\<close>) and hence pass the test \<^verbatim>\<open>if (analyzer)\<close>. Every other name
  yields \<^verbatim>\<open>undefined\<close>.
\<close>

datatype analyzer_kind = SimplySupported | TwoSpanUnequal

datatype lookup = Own analyzer_kind | Inherited | Undefined

definition object_prototype_names :: "string list" where
  "object_prototype_names =
     [''constructor'', ''hasOwnProperty'', ''isPrototypeOf'', ''propertyIsEnumerable'',
      ''toLocaleString'', ''toString'', ''valueOf'', ''__proto__'',
      ''__defineGetter__'', ''__defineSetter__'', ''__lookupGetter__'', ''__lookupSetter__'']"

definition analyzer_lookup :: "string \<Rightarrow> lookup" where
  "analyzer_lookup condition =
     (if condition = ''simply-supported'' then Own SimplySupported
      else if condition = ''two-span-unequal'' then Own TwoSpanUnequal
      else if condition \<in> set object_prototype_names then Inherited
      else Undefined)"

text \<open>
  \<open>InvalidCondition\<close> is \<^verbatim>\<open>throw new Error('Invalid condition')\<close>. \<open>NotAFunction\<close> is
  the \<^verbatim>\<open>TypeError\<close> of calling a method the looked-up value does not have.
\<close>

datatype error = InvalidCondition | NotAFunction

record Analysis =
  res_beam :: Beam
  res_load :: rat
  res_equation :: Equation

fun getDeflectionEquation :: "analyzer_kind \<Rightarrow> Beam \<Rightarrow> rat \<Rightarrow> Equation option" where
  "getDeflectionEquation SimplySupported b w = ss_getDeflectionEquation b w"
| "getDeflectionEquation TwoSpanUnequal b w = tsu_getDeflectionEquation b w"

fun getBendingMomentEquation :: "analyzer_kind \<Rightarrow> Beam \<Rightarrow> rat \<Rightarrow> Equation option" where
  "getBendingMomentEquation SimplySupported b w = ss_getBendingMomentEquation b w"
| "getBendingMomentEquation TwoSpanUnequal b w = tsu_getBendingMomentEquation b w"

fun getShearForceEquation :: "analyzer_kind \<Rightarrow> Beam \<Rightarrow> rat \<Rightarrow> Equation option" where
  "getShearForceEquation SimplySupported b w = ss_getShearForceEquation b w"
| "getShearForceEquation TwoSpanUnequal b w = tsu_getShearForceEquation b w"

text \<open>
  A facade method returns \<open>None\<close> when the analyzer's loop does not end, \<open>Some (Inl e)\<close>
  when it throws \<open>e\<close>, and \<open>Some (Inr r)\<close> when it returns the object \<open>r\<close>.
\<close>

definition dispatch ::
  "(analyzer_kind \<Rightarrow> Beam \<Rightarrow> rat \<Rightarrow> Equation option) \<Rightarrow> Beam \<Rightarrow> rat \<Rightarrow> string \<Rightarrow>
     (error + Analysis) option" where
  "dispatch method b w condition =
     (case analyzer_lookup condition of
        Own a \<Rightarrow>
          map_option (\<lambda>e. Inr \<lparr>res_beam = b, res_load = w, res_equation = e\<rparr>) (method a b w)
      | Inherited \<Rightarrow> Some (Inl NotAFunction)
      | Undefined \<Rightarrow> Some (Inl InvalidCondition))"

definition getDeflection :: "Beam \<Rightarrow> rat \<Rightarrow> string \<Rightarrow> (error + Analysis) option" where
  "getDeflection = dispatch getDeflectionEquation"

definition getBendingMoment :: "Beam \<Rightarrow> rat \<Rightarrow> string \<Rightarrow> (error + Analysis) option" where
  "getBendingMoment = dispatch getBendingMomentEquation"

definition getShearForce :: "Beam \<Rightarrow> rat \<Rightarrow> string \<Rightarrow> (error + Analysis) option" where
  "getShearForce = dispatch getShearForceEquation"

section \<open>Positions of the iterations\<close>

text \<open>
  The loop variables that steer a two-span loop are the position \<^verbatim>\<open>m\<close>, the
  lookback (\<^verbatim>\<open>lk\<close>, in the shear-force method \<^verbatim>\<open>mn\<close>) and whether the
  \<^verbatim>\<open>break\<close> was taken; the arrays are only written. \<open>tsu_step\<close> and \<open>shear_step\<close> are
  one iteration of the loop bodies above on these three (lemmas \<open>tsu_body_step\<close>,
  \<open>shear_body_step\<close>), and \<open>tsu_position l l1 r1 r3 w k\<close> is the position at which
  iteration \<open>k\<close> of the deflection and of the bending-moment loop takes its sample.
\<close>

definition tsu_step :: "rat \<Rightarrow> rat \<Rightarrow> rat \<Rightarrow> rat \<Rightarrow> rat \<Rightarrow> rat \<times> rat \<times> bool \<Rightarrow> rat \<times> rat \<times> bool" where
  "tsu_step l l1 r1 r3 w = (\<lambda>(m, lk, brk).
     if m = l then (m, lk, True)
     else (case calculateValue m l l1 r1 w lk r3 m lk of (ret, m', lk') \<Rightarrow> (ret, lk', brk)))"

definition tsu_position :: "rat \<Rightarrow> rat \<Rightarrow> rat \<Rightarrow> rat \<Rightarrow> rat \<Rightarrow> nat \<Rightarrow> rat" where
  "tsu_position l l1 r1 r3 w k = fst ((tsu_step l l1 r1 r3 w ^^ k) (0, 0, False))"

definition shear_step :: "rat \<Rightarrow> rat \<Rightarrow> rat \<times> rat \<times> bool \<Rightarrow> rat \<times> rat \<times> bool" where
  "shear_step l l1 = (\<lambda>(m, mn, brk).
     if m = l then (m, mn, True)
     else (case shear_calculateValue m mn l1 l mn of (ret, mn') \<Rightarrow> (ret, mn', brk)))"

section \<open>Invariants and measures of the two-span loops\<close>

text \<open>
  The following notions are used in the termination proofs only. A position is on
  the grid when it is reached from \<open>0\<close> or from the middle support \<open>l1\<close> by whole
  steps of \<open>l / 100\<close>; \<open>steps_left\<close> counts the whole steps that fit between a position
  and the right end. In the invariant of the deflection and bending-moment loop,
  \<open>a\<close> and \<open>b\<close> are the two zero-shear positions \<^verbatim>\<open>r1 / w\<close> and \<^verbatim>\<open>l - r3 / w\<close>:
  the loop is at the right end, or at \<open>a\<close> or \<open>b\<close> with the grid position it left
  in \<^verbatim>\<open>lk\<close>, or on the grid.
\<close>

definition on_grid :: "rat \<Rightarrow> rat \<Rightarrow> rat \<Rightarrow> bool" where
  "on_grid l l1 x \<longleftrightarrow>
     (\<exists>k :: nat. x = of_nat k * l / 100) \<or> (\<exists>k :: nat. x = l1 + of_nat k * l / 100)"

definition steps_left :: "rat \<Rightarrow> rat \<Rightarrow> nat" where
  "steps_left l x = nat \<lceil>(l - x) / (l / 100)\<rceil>"

definition tsu_inv :: "rat \<Rightarrow> rat \<Rightarrow> rat \<Rightarrow> rat \<Rightarrow> tsu_state \<Rightarrow> bool" where
  "tsu_inv l l1 a b st \<longleftrightarrow>
     (if st_break st then st_m st = l \<and> (\<exists>xs. st_xarray st = toFixed2 l # xs)
      else st_m st = l \<or>
        (st_m st = a \<and> on_grid l l1 (st_lk st) \<and> st_lk st + l / 100 < l1) \<or>
        (st_m st = b \<and> on_grid l l1 (st_lk st) \<and> l1 < st_lk st \<and> st_lk st + l / 100 \<le> l \<and>
           \<bar>st_lk st - b\<bar> < l / 100) \<or>
        (on_grid l l1 (st_m st) \<and> st_m st \<le> l))"

definition tsu_measure :: "rat \<Rightarrow> rat \<Rightarrow> rat \<Rightarrow> rat \<Rightarrow> tsu_state \<Rightarrow> nat" where
  "tsu_measure l l1 a b st =
     (if st_break st then 0
      else if st_m st = l then 1
      else if st_m st = a then 4 + 2 * steps_left l (st_lk st)
      else if st_m st = b then 2 + 2 * steps_left l (st_lk st)
      else 3 + 2 * steps_left l (st_m st) + (if st_m st < l1 then 2 else 0))"

definition shear_inv :: "rat \<Rightarrow> shear_state \<Rightarrow> bool" where
  "shear_inv l st \<longleftrightarrow>
     (if sh_break st then sh_m st = l \<and> (\<exists>xs. sh_xarray st = toFixed2 l # xs)
      else sh_m st \<le> l)"

definition shear_measure :: "rat \<Rightarrow> rat \<Rightarrow> shear_state \<Rightarrow> nat" where
  "shear_measure l l1 st =
     (if sh_break st then 0
      else if sh_m st = l then 1
      else 2 + 2 * steps_left l (sh_m st) + (if sh_m st < l1 then 2 else 0) +
        (if sh_m st = l1 \<and> sh_mn st \<noteq> l1 then 1 else 0))"

section \<open>Loops\<close>


lemma while_option_SomeD:
  assumes "while_option b c s = Some t"
  shows "\<exists>K. t = (c ^^ K) s \<and> \<not> b t \<and> (\<forall>k<K. b ((c ^^ k) s))"
proof (cases "\<exists>k. \<not> b ((c ^^ k) s)")
  case True
  let ?K = "LEAST k. \<not> b ((c ^^ k) s)"
  from assms True have t: "t = (c ^^ ?K) s" by (simp add: while_option_def)
  from True have "\<not> b ((c ^^ ?K) s)" by (rule LeastI_ex)
  moreover have "b ((c ^^ k) s)" if "k < ?K" for k
    using not_less_Least [OF that] by simp
  ultimately show ?thesis using t by blast
next
  case False
  with assms show ?thesis by (simp add: while_option_def)
qed

section \<open>Rounding to two decimals\<close>

lemma floor_half: "\<lfloor>1 / 2 :: rat\<rfloor> = 0"
  by (simp add: floor_eq_iff)

lemma toFixed2_zero: "toFixed2 0 = 0"
  by (simp add: toFixed2_def floor_half)

lemma toFixed2_minus: "toFixed2 (- v) = - toFixed2 v"
  by (cases "v = 0") (auto simp: toFixed2_def floor_half)

lemma toFixed2_hundredths: "toFixed2 (of_int n / 100) = of_int n / 100"
proof -
  have "\<lfloor>(of_int k :: rat) + 1 / 2\<rfloor> = k" for k
    by (simp add: floor_eq_iff)
  from this [of n] this [of "- n"] show ?thesis
    by (simp add: toFixed2_def)
qed

lemma toFixed2_of_int: "toFixed2 (of_int n) = of_int n"
  using toFixed2_hundredths [of "n * 100"] by simp

lemma toFixed2_nonneg_eq:
  assumes "0 \<le> v" and "of_int n \<le> v * 100 + 1 / 2" and "v * 100 + 1 / 2 < of_int n + 1"
  shows "toFixed2 v = of_int n / 100"
proof -
  have "\<lfloor>v * 100 + 1 / 2\<rfloor> = n" using assms(2,3) by (simp add: floor_eq_iff)
  with assms(1) show ?thesis by (simp add: toFixed2_def)
qed

lemma toFixed2_cases: "\<exists>n. toFixed2 v = of_int n / 100"
proof (cases "v < 0")
  case True
  then have "toFixed2 v = of_int (- \<lfloor>(- v) * 100 + 1 / 2\<rfloor>) / 100"
    by (simp add: toFixed2_def)
  then show ?thesis by blast
next
  case False
  then have "toFixed2 v = of_int \<lfloor>v * 100 + 1 / 2\<rfloor> / 100"
    by (simp add: toFixed2_def)
  then show ?thesis by blast
qed

lemma toFixed2_idem: "toFixed2 (toFixed2 v) = toFixed2 v"
proof -
  obtain n where "toFixed2 v = of_int n / 100" using toFixed2_cases by blast
  then show ?thesis by (simp only: toFixed2_hundredths)
qed

lemma toFixed2_calculateRoundedValue:
  "toFixed2 (calculateRoundedValue x l l1 r1 w r2) = calculateRoundedValue x l l1 r1 w r2"
  by (simp add: calculateRoundedValue_def toFixed2_zero toFixed2_minus toFixed2_idem)

lemma toFixed2_ge2:
  assumes "2 \<le> v"
  shows "toFixed2 v \<noteq> 1"
proof -
  let ?n = "\<lfloor>v * 100 + 1 / 2\<rfloor>"
  have "200 \<le> ?n" unfolding le_floor_iff using assms by simp
  then have "of_int 200 \<le> (of_int ?n :: rat)" by (simp only: of_int_le_iff)
  then have "(2 :: rat) \<le> of_int ?n / 100" by simp
  moreover have "toFixed2 v = of_int ?n / 100"
    using assms by (simp add: toFixed2_def)
  ultimately have "2 \<le> toFixed2 v" by (simp only:)
  then show ?thesis by simp
qed

section \<open>Simply supported analyzer: the sample grid\<close>






section \<open>The facade: unknown conditions\<close>

text \<open>
  A condition string that is neither registered nor the name of an inherited property
  makes each facade method throw \<^verbatim>\<open>'Invalid condition'\<close>.
\<close>

lemma facade_unknown_condition:
  assumes "condition \<noteq> ''simply-supported''" and "condition \<noteq> ''two-span-unequal''"
    and "condition \<notin> set object_prototype_names"
  shows "getDeflection b w condition = Some (Inl InvalidCondition)"
    and "getBendingMoment b w condition = Some (Inl InvalidCondition)"
    and "getShearForce b w condition = Some (Inl InvalidCondition)"
  using assms
  by (simp_all add: getDeflection_def getBendingMoment_def getShearForce_def dispatch_def
      analyzer_lookup_def)

section \<open>Squares modulo 8\<close>

text \<open>An integer that is 5 modulo 8 is not the square of a rational number.\<close>

lemma sq_mod8: fixes x :: int shows "x ^ 2 mod 8 \<in> {0, 1, 4}"
proof -
  have "x mod 8 \<in> {0, 1, 2, 3, 4, 5, 6, 7}" by auto
  moreover have "x ^ 2 mod 8 = (x mod 8) ^ 2 mod 8" by (simp add: power_mod)
  ultimately show ?thesis by (auto simp: power2_eq_square)
qed

lemma odd_sq_mod8: fixes x :: int assumes "odd x" shows "x ^ 2 mod 8 = 1"
proof -
  have "x mod 8 = 1 \<or> x mod 8 = 3 \<or> x mod 8 = 5 \<or> x mod 8 = 7" using assms by presburger
  moreover have "x ^ 2 mod 8 = (x mod 8) ^ 2 mod 8" by (simp add: power_mod)
  ultimately show ?thesis by (auto simp: power2_eq_square)
qed

lemma no_rat_square:
  fixes N :: int and r :: rat
  assumes "N mod 8 = 5"
  shows "r ^ 2 \<noteq> of_int N"
proof
  assume eq: "r ^ 2 = of_int N"
  obtain u v :: int where r: "r = Fract u v" and v: "0 < v" and cop: "coprime u v"
    by (cases r) auto
  have "r = of_int u / of_int v" using r by (simp add: Fract_of_int_quotient)
  with eq v have "(of_int u :: rat) ^ 2 = of_int N * of_int v ^ 2"
    by (simp add: field_simps power2_eq_square)
  then have "(of_int (u ^ 2) :: rat) = of_int (N * v ^ 2)" by simp
  then have int_eq: "u ^ 2 = N * v ^ 2" by (simp only: of_int_eq_iff)
  show False
  proof (cases "odd v")
    case True
    then have "v ^ 2 mod 8 = 1" by (rule odd_sq_mod8)
    then have "(N * v ^ 2) mod 8 = 5"
      using assms by (metis mod_mult_eq mult.right_neutral mod_mod_trivial)
    with int_eq have "u ^ 2 mod 8 = 5" by simp
    with sq_mod8 [of u] show False by simp
  next
    case False
    then have "even (u ^ 2)" using int_eq by simp
    then have "even u" by simp
    with False cop show False by (auto simp: coprime_def dest: spec [of _ 2])
  qed
qed

section \<open>The zero-shear positions are off the grid\<close>

text \<open>
  For positive rational spans the zero-shear positions \<^verbatim>\<open>r1 / w\<close> and \<^verbatim>\<open>l - r3 / w\<close> do not
  depend on the load, and neither is a whole number of steps \<open>l / 100\<close> away from \<open>0\<close> or
  from the middle support: such a position would make an integer that is 5 modulo 8 the
  square of a rational number.
\<close>

lemma cancel_factor: "c \<noteq> 0 \<Longrightarrow> - (A * c) / (8 * c) = - A / (8 :: rat)"
  by (simp add: field_simps)

lemma tsu_m1_eq:
  assumes "0 < l1" "0 < l2"
  shows "tsu_m1 w l1 l2 = - (w * (l1 ^ 2 - l1 * l2 + l2 ^ 2)) / 8"
proof -
  have ne: "l1 + l2 \<noteq> 0" using assms by simp
  have "(w * l2 ^ 3) + (w * l1 ^ 3) = (w * (l1 ^ 2 - l1 * l2 + l2 ^ 2)) * (l1 + l2)"
    by (simp add: algebra_simps power2_eq_square power3_eq_cube)
  then have "tsu_m1 w l1 l2 = - ((w * (l1 ^ 2 - l1 * l2 + l2 ^ 2)) * (l1 + l2)) / (8 * (l1 + l2))"
    by (simp only: tsu_m1_def)
  also have "\<dots> = - (w * (l1 ^ 2 - l1 * l2 + l2 ^ 2)) / 8"
    by (rule cancel_factor [OF ne])
  finally show ?thesis .
qed

lemma quotient_shape:
  assumes "c \<noteq> 0" "w \<noteq> (0 :: rat)"
  shows "((- (w * X) / 8) / c + (w * c) / 2) / w = (4 * c ^ 2 - X) / (8 * c)"
  using assms by (simp add: field_simps power2_eq_square)

lemma zero_shear_1_eq:
  assumes "0 < l1" "0 < l2" "w \<noteq> 0"
  shows "tsu_r1 w l1 l2 / w = (3 * l1 ^ 2 + l1 * l2 - l2 ^ 2) / (8 * l1)"
proof -
  have "l1 \<noteq> 0" using assms by simp
  then have "tsu_r1 w l1 l2 / w = (4 * l1 ^ 2 - (l1 ^ 2 - l1 * l2 + l2 ^ 2)) / (8 * l1)"
    unfolding tsu_r1_def tsu_m1_eq [OF assms(1,2)] using assms(3) by (rule quotient_shape)
  then show ?thesis by (simp add: algebra_simps)
qed

lemma zero_shear_2_eq:
  assumes "0 < l1" "0 < l2" "w \<noteq> 0"
  shows "(l1 + l2) - tsu_r3 w l1 l2 / w = (l1 ^ 2 + 7 * l1 * l2 + 5 * l2 ^ 2) / (8 * l2)"
proof -
  have ne: "l2 \<noteq> 0" using assms by simp
  then have "tsu_r3 w l1 l2 / w = (4 * l2 ^ 2 - (l1 ^ 2 - l1 * l2 + l2 ^ 2)) / (8 * l2)"
    unfolding tsu_r3_def tsu_m1_eq [OF assms(1,2)] using assms(3) by (rule quotient_shape)
  then show ?thesis using ne by (simp add: field_simps power2_eq_square)
qed

lemma mod8_5a: fixes k :: int shows "((2 * k - 75) ^ 2 + 2500) mod 8 = 5"
proof -
  have "odd (2 * k - 75)" by simp
  then have "(2 * k - 75) ^ 2 mod 8 = 1" by (rule odd_sq_mod8)
  then show ?thesis by presburger
qed

lemma zero_shear_1_off_grid:
  assumes "0 < l1" "0 < l2" "w \<noteq> 0"
  shows "tsu_r1 w l1 l2 / w \<noteq> of_int k * (l1 + l2) / 100"
proof
  let ?k = "of_int k :: rat"
  assume "tsu_r1 w l1 l2 / w = of_int k * (l1 + l2) / 100"
  then have "(3 * l1 ^ 2 + l1 * l2 - l2 ^ 2) / (8 * l1) = ?k * (l1 + l2) / 100"
    by (simp only: zero_shear_1_eq [OF assms])
  then have h: "100 * (3 * l1 ^ 2 + l1 * l2 - l2 ^ 2) = 8 * ?k * l1 * (l1 + l2)"
    using assms by (simp add: field_simps)
  have "(50 * l2 - (25 - 2 * ?k) * l1) ^ 2 = l1 ^ 2 * ((2 * ?k - 75) ^ 2 + 2500)"
    using h by algebra
  then have "((50 * l2 - (25 - 2 * ?k) * l1) / l1) ^ 2 = (2 * ?k - 75) ^ 2 + 2500"
    using assms by (simp add: power_divide)
  also have "\<dots> = of_int ((2 * k - 75) ^ 2 + 2500)" by simp
  finally show False using no_rat_square [OF mod8_5a] by blast
qed

lemma mod8_5b: fixes k :: int shows "((2 * k + 75) ^ 2 - 17500) mod 8 = 5"
proof -
  have "odd (2 * k + 75)" by simp
  then have "(2 * k + 75) ^ 2 mod 8 = 1" by (rule odd_sq_mod8)
  then show ?thesis by presburger
qed

lemma mod8_5c: fixes k :: int shows "((2 * k - 125) ^ 2 + 2500) mod 8 = 5"
proof -
  have "odd (2 * k - 125)" by simp
  then have "(2 * k - 125) ^ 2 mod 8 = 1" by (rule odd_sq_mod8)
  then show ?thesis by presburger
qed

lemma zero_shear_2_off_grid:
  assumes "0 < l1" "0 < l2" "w \<noteq> 0"
  shows "(l1 + l2) - tsu_r3 w l1 l2 / w \<noteq> of_int k * (l1 + l2) / 100"
proof
  let ?k = "of_int k :: rat"
  assume "(l1 + l2) - tsu_r3 w l1 l2 / w = of_int k * (l1 + l2) / 100"
  then have "(l1 ^ 2 + 7 * l1 * l2 + 5 * l2 ^ 2) / (8 * l2) = ?k * (l1 + l2) / 100"
    by (simp only: zero_shear_2_eq [OF assms])
  then have h: "100 * (l1 ^ 2 + 7 * l1 * l2 + 5 * l2 ^ 2) = 8 * ?k * l2 * (l1 + l2)"
    using assms by (simp add: field_simps)
  have "(50 * l1 + (175 - 2 * ?k) * l2) ^ 2 = l2 ^ 2 * ((2 * ?k - 125) ^ 2 + 2500)"
    using h by algebra
  then have "((50 * l1 + (175 - 2 * ?k) * l2) / l2) ^ 2 = (2 * ?k - 125) ^ 2 + 2500"
    using assms by (simp add: power_divide)
  also have "\<dots> = of_int ((2 * k - 125) ^ 2 + 2500)" by simp
  finally show False using no_rat_square [OF mod8_5c] by blast
qed

lemma zero_shear_2_off_grid':
  assumes "0 < l1" "0 < l2" "w \<noteq> 0"
  shows "(l1 + l2) - tsu_r3 w l1 l2 / w \<noteq> l1 + of_int k * (l1 + l2) / 100"
proof
  let ?k = "of_int k :: rat"
  assume "(l1 + l2) - tsu_r3 w l1 l2 / w = l1 + of_int k * (l1 + l2) / 100"
  then have "(l1 ^ 2 + 7 * l1 * l2 + 5 * l2 ^ 2) / (8 * l2) = l1 + ?k * (l1 + l2) / 100"
    by (simp only: zero_shear_2_eq [OF assms])
  then have h: "100 * (l1 ^ 2 + 7 * l1 * l2 + 5 * l2 ^ 2) = 800 * l1 * l2 + 8 * ?k * l2 * (l1 + l2)"
    using assms by (simp add: field_simps)
  have "(50 * l1 - (25 + 2 * ?k) * l2) ^ 2 = l2 ^ 2 * ((2 * ?k + 75) ^ 2 - 17500)"
    using h by algebra
  then have "((50 * l1 - (25 + 2 * ?k) * l2) / l2) ^ 2 = (2 * ?k + 75) ^ 2 - 17500"
    using assms by (simp add: power_divide)
  also have "\<dots> = of_int ((2 * k + 75) ^ 2 - 17500)" by simp
  finally show False using no_rat_square [OF mod8_5b] by blast
qed

lemma zero_shear_bounds:
  assumes "0 < l1" "0 < l2" "w \<noteq> 0"
  shows "tsu_r1 w l1 l2 / w < l1" and "l1 < (l1 + l2) - tsu_r3 w l1 l2 / w"
proof -
  have pos: "0 < l1 ^ 2 - l1 * l2 + l2 ^ 2"
  proof -
    have "l1 ^ 2 - l1 * l2 + l2 ^ 2 = (l1 - l2) ^ 2 + l1 * l2"
      by (simp add: power2_eq_square algebra_simps)
    moreover have "0 < l1 * l2" using assms by simp
    moreover have "0 \<le> (l1 - l2) ^ 2" by simp
    ultimately show ?thesis by linarith
  qed
  have "(3 * l1 ^ 2 + l1 * l2 - l2 ^ 2) / (8 * l1) < l1"
  proof -
    have "l1 * (8 * l1) - (3 * l1 ^ 2 + l1 * l2 - l2 ^ 2) =
          (l1 ^ 2 - l1 * l2 + l2 ^ 2) + 4 * l1 ^ 2"
      by (simp add: power2_eq_square algebra_simps)
    moreover have "0 \<le> 4 * l1 ^ 2" by simp
    ultimately have "3 * l1 ^ 2 + l1 * l2 - l2 ^ 2 < l1 * (8 * l1)"
      using pos by linarith
    then show ?thesis using assms by (simp add: pos_divide_less_eq)
  qed
  then show "tsu_r1 w l1 l2 / w < l1" by (simp only: zero_shear_1_eq [OF assms])
  have "l1 < (l1 ^ 2 + 7 * l1 * l2 + 5 * l2 ^ 2) / (8 * l2)"
  proof -
    have "l1 ^ 2 + 7 * l1 * l2 + 5 * l2 ^ 2 - l1 * (8 * l2) =
          (l1 ^ 2 - l1 * l2 + l2 ^ 2) + 4 * l2 ^ 2"
      by (simp add: power2_eq_square algebra_simps)
    moreover have "0 \<le> 4 * l2 ^ 2" by simp
    ultimately have "l1 * (8 * l2) < l1 ^ 2 + 7 * l1 * l2 + 5 * l2 ^ 2"
      using pos by linarith
    then show ?thesis using assms by (simp add: pos_less_divide_eq)
  qed
  then show "l1 < (l1 + l2) - tsu_r3 w l1 l2 / w" by (simp only: zero_shear_2_eq [OF assms])
qed

lemma on_grid_step:
  assumes "on_grid l l1 x"
  shows "on_grid l l1 (x + l / 100)"
proof -
  have g0: "of_nat k * l / 100 + l / 100 = of_nat (Suc k) * l / 100" for k :: nat
    by (simp add: field_simps)
  have g1: "l1 + of_nat k * l / 100 + l / 100 = l1 + of_nat (Suc k) * l / 100" for k :: nat
    by (simp add: field_simps)
  from assms consider k :: nat where "x = of_nat k * l / 100"
    | k :: nat where "x = l1 + of_nat k * l / 100"
    unfolding on_grid_def by blast
  then show ?thesis
  proof cases
    case 1
    then have "x + l / 100 = of_nat (Suc k) * l / 100" by (simp only: g0)
    then show ?thesis unfolding on_grid_def by blast
  next
    case 2
    then have "x + l / 100 = l1 + of_nat (Suc k) * l / 100" by (simp only: g1)
    then show ?thesis unfolding on_grid_def by blast
  qed
qed

lemma on_grid_0: "on_grid l l1 0"
  unfolding on_grid_def by (rule disjI1, rule exI [of _ 0]) simp

lemma on_grid_l1: "on_grid l l1 l1"
  unfolding on_grid_def by (rule disjI2, rule exI [of _ 0]) simp

lemma tsu_off_grid:
  assumes "0 < l1" "0 < l2" "w \<noteq> 0" and "on_grid (l1 + l2) l1 y"
  shows "y \<noteq> tsu_r1 w l1 l2 / w \<and> y \<noteq> (l1 + l2) - tsu_r3 w l1 l2 / w"
proof -
  from assms(4) consider k :: nat where "y = of_nat k * (l1 + l2) / 100"
    | k :: nat where "y = l1 + of_nat k * (l1 + l2) / 100"
    unfolding on_grid_def by blast
  then show ?thesis
  proof cases
    case 1
    then have y: "y = of_int (int k) * (l1 + l2) / 100" by simp
    show ?thesis unfolding y
      using zero_shear_1_off_grid [OF assms(1-3), of "int k"]
        zero_shear_2_off_grid [OF assms(1-3), of "int k"]
      by (simp only: not_sym not_False_eq_True simp_thms)
  next
    case 2
    then have y: "y = l1 + of_int (int k) * (l1 + l2) / 100" by simp
    have "0 \<le> of_nat k * (l1 + l2) / 100" using assms(1,2) by simp
    with 2 have "l1 \<le> y" by simp
    with zero_shear_bounds(1) [OF assms(1-3)] have ya: "y \<noteq> tsu_r1 w l1 l2 / w" by simp
    have "y \<noteq> (l1 + l2) - tsu_r3 w l1 l2 / w" unfolding y
      using zero_shear_2_off_grid' [OF assms(1-3), of "int k"] by (rule not_sym)
    with ya show ?thesis by simp
  qed
qed

section \<open>One iteration of the deflection and bending-moment loop\<close>

lemma calculateValue_eq:
  assumes "w \<noteq> 0"
  shows "calculateValue x l l1 r1 w mn r3 x mn =
    (if x = 0 then (l / 100, l / 100, - (l / 100))
     else if \<bar>x - l1\<bar> \<le> l / 100 \<and> x < l1 then (l1, x, x)
     else if x < l1 \<and> x \<noteq> r1 / w \<and> mn \<noteq> r1 / w \<and> \<bar>x - r1 / w\<bar> \<le> l / 100 then (r1 / w, x, x)
     else if \<bar>x - l\<bar> < l / 100 then (l, x, mn)
     else if x > l1 \<and> x \<noteq> l - r3 / w \<and> mn \<noteq> l - r3 / w \<and> \<bar>x - (l - r3 / w)\<bar> < l / 100
       then (l - r3 / w, x, x)
     else if x = r1 / w \<or> x = l - r3 / w then (mn + l / 100, x, x)
     else (x + l / 100, x + l / 100, 0))"
  using assms
  by (simp add: calculateValue_def js_div_def within_le_def within_lt_def Let_def
      split del: if_split cong: if_cong)

lemma tsu_body_break:
  "st_m st = l \<Longrightarrow>
     st_break (tsu_body yf l l1 r1 r3 w st) \<and> st_m (tsu_body yf l l1 r1 r3 w st) = l \<and>
     st_xarray (tsu_body yf l l1 r1 r3 w st) = toFixed2 l # st_xarray st"
  by (simp add: tsu_body_def Let_def)

lemma tsu_body_next:
  assumes "st_m st \<noteq> l" and "calculateValue (st_m st) l l1 r1 w (st_lk st) r3 (st_m st) (st_lk st) = (ret, m', lk')"
  shows "st_m (tsu_body yf l l1 r1 r3 w st) = ret" and "st_lk (tsu_body yf l l1 r1 r3 w st) = lk'"
    and "st_break (tsu_body yf l l1 r1 r3 w st) = st_break st"
  using assms by (simp_all add: tsu_body_def Let_def)

lemma steps_left_step:
  assumes "0 < l" and "x < l"
  shows "steps_left l (x + l / 100) + 1 = steps_left l x"
proof -
  have "(l - (x + l / 100)) / (l / 100) = (l - x) / (l / 100) - 1"
    using assms(1) by (simp add: field_simps)
  then have c: "\<lceil>(l - (x + l / 100)) / (l / 100)\<rceil> = \<lceil>(l - x) / (l / 100)\<rceil> - 1"
    by simp
  have "0 < (l - x) / (l / 100)" using assms by simp
  then have pos: "0 < \<lceil>(l - x) / (l / 100)\<rceil>" by (simp only: zero_less_ceiling)
  have "nat (c - 1) + 1 = nat c" if "0 < c" for c :: int using that by simp
  from this [OF pos] show ?thesis unfolding steps_left_def by (simp only: c)
qed

lemma steps_left_mono:
  assumes "0 < l" and "x \<le> y"
  shows "steps_left l y \<le> steps_left l x"
proof -
  have "(l - y) / (l / 100) \<le> (l - x) / (l / 100)"
    using assms by (simp add: divide_right_mono)
  then show ?thesis unfolding steps_left_def by (intro nat_mono ceiling_mono)
qed

lemma calculateValue_branches:
  assumes "w \<noteq> 0" and "calculateValue x l l1 r1 w mn r3 x mn = (ret, m', lk')"
  shows
    "(x = 0 \<and> ret = l / 100 \<and> lk' = - (l / 100)) \<or>
     (x \<noteq> 0 \<and> \<bar>x - l1\<bar> \<le> l / 100 \<and> x < l1 \<and> ret = l1 \<and> lk' = x) \<or>
     (x \<noteq> 0 \<and> \<not> (\<bar>x - l1\<bar> \<le> l / 100 \<and> x < l1) \<and> x < l1 \<and> x \<noteq> r1 / w \<and> mn \<noteq> r1 / w \<and>
        \<bar>x - r1 / w\<bar> \<le> l / 100 \<and> ret = r1 / w \<and> lk' = x) \<or>
     (x \<noteq> 0 \<and> \<bar>x - l\<bar> < l / 100 \<and> ret = l \<and> lk' = mn) \<or>
     (x \<noteq> 0 \<and> \<not> \<bar>x - l\<bar> < l / 100 \<and> l1 < x \<and> x \<noteq> l - r3 / w \<and> mn \<noteq> l - r3 / w \<and>
        \<bar>x - (l - r3 / w)\<bar> < l / 100 \<and> ret = l - r3 / w \<and> lk' = x) \<or>
     (x \<noteq> 0 \<and> \<not> (\<bar>x - l1\<bar> \<le> l / 100 \<and> x < l1) \<and> \<not> \<bar>x - l\<bar> < l / 100 \<and>
        (x = r1 / w \<or> x = l - r3 / w) \<and> ret = mn + l / 100 \<and> lk' = x) \<or>
     (x \<noteq> 0 \<and> \<not> (\<bar>x - l1\<bar> \<le> l / 100 \<and> x < l1) \<and> \<not> \<bar>x - l\<bar> < l / 100 \<and>
        x \<noteq> r1 / w \<and> x \<noteq> l - r3 / w \<and> ret = x + l / 100 \<and> lk' = 0)"
  using assms(2) unfolding calculateValue_eq [OF assms(1)]
  by (simp split: if_splits)

lemma tsu_measure_grid:
  assumes "\<not> st_break st" and "st_m st \<noteq> a" and "st_m st \<noteq> b"
  shows "tsu_measure l l1 a b st \<le>
    3 + 2 * steps_left l (st_m st) + (if st_m st < l1 then 2 else 0)"
  using assms by (simp add: tsu_measure_def)

lemma tsu_step_decreases:
  assumes l1: "0 < l1" "l1 < l" and ab: "a < l1" "l1 < b"
    and w: "w \<noteq> 0" and a: "a = r1 / w" and b: "b = l - r3 / w"
    and off: "\<And>y. on_grid l l1 y \<Longrightarrow> y \<noteq> a \<and> y \<noteq> b"
    and inv: "tsu_inv l l1 a b st" and cond: "tsu_cond l st"
  shows "tsu_inv l l1 a b (tsu_body yf l l1 r1 r3 w st) \<and>
    tsu_measure l l1 a b (tsu_body yf l l1 r1 r3 w st) < tsu_measure l l1 a b st"
proof (cases "st_m st = l")
  case True
  with cond tsu_body_break [OF True, of yf l1 r1 r3 w] show ?thesis
    by (simp add: tsu_inv_def tsu_measure_def tsu_cond_def)
next
  case False
  let ?st' = "tsu_body yf l l1 r1 r3 w st"
  let ?x = "st_m st" and ?mn = "st_lk st" and ?s = "l / 100"
  have lpos: "0 < l" and spos: "0 < ?s" using l1 by simp_all
  have nb: "\<not> st_break st" and xl: "?x < l" using cond False by (simp_all add: tsu_cond_def)
  obtain ret m' lk' where cv: "calculateValue ?x l l1 r1 w ?mn r3 ?x ?mn = (ret, m', lk')"
    by (cases "calculateValue ?x l l1 r1 w ?mn r3 ?x ?mn") blast
  note f = tsu_body_next [OF False cv, of yf]
  have nb': "\<not> st_break ?st'" using f(3) nb by simp
  have form: "(?x = a \<and> on_grid l l1 ?mn \<and> ?mn + ?s < l1) \<or>
      (?x = b \<and> on_grid l l1 ?mn \<and> l1 < ?mn \<and> ?mn + ?s \<le> l \<and> \<bar>?mn - b\<bar> < ?s) \<or>
      (on_grid l l1 ?x \<and> ?x \<noteq> a \<and> ?x \<noteq> b)"
    using inv nb False off [of ?x] by (auto simp: tsu_inv_def)
  have old_a: "tsu_measure l l1 a b st = 4 + 2 * steps_left l ?mn" if "?x = a"
    using that nb False by (simp add: tsu_measure_def)
  have old_b: "tsu_measure l l1 a b st = 2 + 2 * steps_left l ?mn" if "?x = b"
    using that nb False ab by (simp add: tsu_measure_def)
  have old_g: "tsu_measure l l1 a b st = 3 + 2 * steps_left l ?x + (if ?x < l1 then 2 else 0)"
    if "?x \<noteq> a" "?x \<noteq> b"
    using that nb False by (simp add: tsu_measure_def)
  have old_ge: "2 \<le> tsu_measure l l1 a b st"
    using nb False by (simp add: tsu_measure_def)
  have new_grid: "tsu_inv l l1 a b ?st' \<and>
      tsu_measure l l1 a b ?st' \<le> 3 + 2 * steps_left l y + (if y < l1 then 2 else 0)"
    if "ret = y" "on_grid l l1 y" "y \<le> l" for y
  proof -
    have "st_m ?st' = y" using f(1) that(1) by simp
    moreover from off [OF that(2)] have "y \<noteq> a" "y \<noteq> b" by simp_all
    ultimately show ?thesis
      using nb' that(2,3) tsu_measure_grid [of ?st' a b l l1]
      by (simp add: tsu_inv_def)
  qed
  from calculateValue_branches [OF w cv]
  consider
    (first) "?x = 0" "ret = ?s" "lk' = - ?s"
    | (support) "\<bar>?x - l1\<bar> \<le> ?s" "?x < l1" "ret = l1" "lk' = ?x"
    | (zero1) "\<not> (\<bar>?x - l1\<bar> \<le> ?s \<and> ?x < l1)" "?x < l1" "?x \<noteq> a" "ret = a" "lk' = ?x"
    | (finish) "ret = l"
    | (zero2) "\<not> \<bar>?x - l\<bar> < ?s" "l1 < ?x" "?x \<noteq> b" "\<bar>?x - b\<bar> < ?s" "ret = b" "lk' = ?x"
    | (leave) "?x = a \<or> ?x = b" "ret = ?mn + ?s" "lk' = ?x"
    | (regular) "\<not> (\<bar>?x - l1\<bar> \<le> ?s \<and> ?x < l1)" "\<not> \<bar>?x - l\<bar> < ?s" "?x \<noteq> a" "?x \<noteq> b"
        "ret = ?x + ?s" "lk' = 0"
    unfolding a b by blast
  then show ?thesis
  proof cases
    case first
    have g: "on_grid l l1 ?x" using first(1) on_grid_0 [of l l1] by simp
    have "on_grid l l1 ?s" using on_grid_step [OF on_grid_0, of l l1] by simp
    moreover have "?s \<le> l" using lpos by simp
    ultimately have n: "tsu_inv l l1 a b ?st' \<and>
        tsu_measure l l1 a b ?st' \<le> 3 + 2 * steps_left l ?s + (if ?s < l1 then 2 else 0)"
      using new_grid [of ?s] first(2) by simp
    have "steps_left l ?s + 1 = steps_left l 0"
      using steps_left_step [OF lpos, of 0] lpos by simp
    moreover have "tsu_measure l l1 a b st = 3 + 2 * steps_left l 0 + 2"
      using old_g off [OF g] first(1) l1(1) by simp
    ultimately show ?thesis using n by (simp split: if_splits)
  next
    case support
    have n: "tsu_inv l l1 a b ?st' \<and> tsu_measure l l1 a b ?st' \<le> 3 + 2 * steps_left l l1"
      using new_grid [of l1] support(3) on_grid_l1 [of l l1] l1(2) by simp
    from form support(2) ab consider "?x = a" "?mn + ?s < l1" | "?x \<noteq> a" "?x \<noteq> b"
      by auto
    then have "3 + 2 * steps_left l l1 < tsu_measure l l1 a b st"
    proof cases
      case 1
      have "steps_left l l1 \<le> steps_left l ?mn"
        using steps_left_mono [OF lpos, of ?mn l1] 1(2) spos by simp
      then show ?thesis using old_a [OF 1(1)] by simp
    next
      case 2
      have "steps_left l l1 \<le> steps_left l ?x"
        using steps_left_mono [OF lpos, of ?x l1] support(2) by simp
      then show ?thesis using old_g [OF 2] support(2) by simp
    qed
    with n show ?thesis by simp
  next
    case zero1
    from form zero1(2,3) ab have g: "on_grid l l1 ?x" "?x \<noteq> b" by auto
    have far: "?x + ?s < l1" using zero1(1,2) by (simp add: abs_if split: if_splits)
    have "st_m ?st' = a" "st_lk ?st' = ?x" using f(1,2) zero1(4,5) by simp_all
    then have "tsu_inv l l1 a b ?st'" and "tsu_measure l l1 a b ?st' = 4 + 2 * steps_left l ?x"
      using nb' g(1) far ab l1 by (simp_all add: tsu_inv_def tsu_measure_def)
    then show ?thesis using old_g [OF zero1(3) g(2)] zero1(2) by simp
  next
    case finish
    have "st_m ?st' = l" using f(1) finish by simp
    then have "tsu_inv l l1 a b ?st'" and "tsu_measure l l1 a b ?st' = 1"
      using nb' by (simp_all add: tsu_inv_def tsu_measure_def)
    then show ?thesis using old_ge by simp
  next
    case zero2
    from form zero2(2,3) ab have g: "on_grid l l1 ?x" "?x \<noteq> a" by auto
    have room: "?x + ?s \<le> l" using zero2(1) xl by (simp add: abs_if split: if_splits)
    have bl: "b < l" using zero2(4) room by (simp add: abs_if split: if_splits)
    have "st_m ?st' = b" "st_lk ?st' = ?x" using f(1,2) zero2(5,6) by simp_all
    then have "tsu_inv l l1 a b ?st'" and "tsu_measure l l1 a b ?st' = 2 + 2 * steps_left l ?x"
      using nb' g(1) room bl ab zero2(2,4) by (simp_all add: tsu_inv_def tsu_measure_def)
    then show ?thesis using old_g [OF g(2) zero2(3)] zero2(2) by simp
  next
    case leave
    from form leave(1) consider
      (A) "?x = a" "on_grid l l1 ?mn" "?mn + ?s < l1"
      | (B) "?x = b" "on_grid l l1 ?mn" "l1 < ?mn" "?mn + ?s \<le> l"
      by blast
    then show ?thesis
    proof cases
      case A
      have "?mn + ?s \<le> l" and ml: "?mn < l" using A(3) l1(2) spos by simp_all
      then have n: "tsu_inv l l1 a b ?st' \<and>
          tsu_measure l l1 a b ?st' \<le> 3 + 2 * steps_left l (?mn + ?s) + 2"
        using new_grid [of "?mn + ?s"] leave(2) on_grid_step [OF A(2)] A(3) by simp
      have "steps_left l (?mn + ?s) + 1 = steps_left l ?mn"
        by (rule steps_left_step [OF lpos ml])
      then show ?thesis using n old_a [OF A(1)] by simp
    next
      case B
      have ml: "?mn < l" using B(4) spos by simp
      have "\<not> ?mn + ?s < l1" using B(3) spos by simp
      then have n: "tsu_inv l l1 a b ?st' \<and>
          tsu_measure l l1 a b ?st' \<le> 3 + 2 * steps_left l (?mn + ?s)"
        using new_grid [of "?mn + ?s"] leave(2) on_grid_step [OF B(2)] B(4) by simp
      have "steps_left l (?mn + ?s) + 1 = steps_left l ?mn"
        by (rule steps_left_step [OF lpos ml])
      then show ?thesis using n old_b [OF B(1)] by simp
    qed
  next
    case regular
    from form regular(3,4) have g: "on_grid l l1 ?x" by blast
    have room: "?x + ?s \<le> l" using regular(2) xl by (simp add: abs_if split: if_splits)
    have n: "tsu_inv l l1 a b ?st' \<and>
        tsu_measure l l1 a b ?st' \<le>
          3 + 2 * steps_left l (?x + ?s) + (if ?x + ?s < l1 then 2 else 0)"
      using new_grid [of "?x + ?s"] regular(5) on_grid_step [OF g] room by simp
    have "steps_left l (?x + ?s) + 1 = steps_left l ?x"
      by (rule steps_left_step [OF lpos xl])
    moreover have "?x + ?s < l1 \<Longrightarrow> ?x < l1" using spos by simp
    ultimately show ?thesis using n old_g [OF regular(3,4)] by (simp split: if_splits)
  qed
qed

section \<open>Termination of the deflection and bending-moment loop\<close>

lemma tsu_loop_terminates:
  assumes "0 < l1" "0 < l2" "w \<noteq> 0"
  shows "\<exists>t. tsu_loop yf (l1 + l2) l1 (tsu_r1 w l1 l2) (tsu_r3 w l1 l2) w = Some t \<and>
    st_break t \<and> st_m t = l1 + l2 \<and> (\<exists>xs. st_xarray t = toFixed2 (l1 + l2) # xs)"
proof -
  let ?l = "l1 + l2" and ?r1 = "tsu_r1 w l1 l2" and ?r3 = "tsu_r3 w l1 l2"
  let ?a = "?r1 / w" and ?b = "?l - ?r3 / w"
  let ?P = "tsu_inv ?l l1 ?a ?b"
  have l: "l1 < ?l" using assms(2) by simp
  have step: "?P (tsu_body yf ?l l1 ?r1 ?r3 w st) \<and>
      tsu_measure ?l l1 ?a ?b (tsu_body yf ?l l1 ?r1 ?r3 w st) < tsu_measure ?l l1 ?a ?b st"
    if "?P st" "tsu_cond ?l st" for st
    using assms(1) l zero_shear_bounds [OF assms] assms(3) refl refl
      tsu_off_grid [OF assms] that
    by (rule tsu_step_decreases)
  have init: "?P tsu_init"
    using on_grid_0 [of ?l l1] assms(1,2) by (simp add: tsu_inv_def tsu_init_def)
  have "\<exists>t. while_option (tsu_cond ?l) (tsu_body yf ?l l1 ?r1 ?r3 w) tsu_init = Some t"
    by (rule measure_while_option_Some
        [where P = ?P and f = "tsu_measure ?l l1 ?a ?b", OF step init])
  then obtain t where t: "tsu_loop yf ?l l1 ?r1 ?r3 w = Some t"
    unfolding tsu_loop_def by blast
  have P: "?P t"
    by (rule while_option_rule [where P = ?P, OF _ t [unfolded tsu_loop_def] init])
      (use step in blast)
  from t have stop: "\<not> tsu_cond ?l t"
    unfolding tsu_loop_def by (rule while_option_stop)
  have "st_break t"
  proof (rule ccontr)
    assume nb: "\<not> st_break t"
    from P nb have "st_m t = ?l \<or> st_m t = ?a \<or>
        (st_m t = ?b \<and> st_lk t + ?l / 100 \<le> ?l \<and> \<bar>st_lk t - ?b\<bar> < ?l / 100) \<or>
        st_m t \<le> ?l"
      by (simp add: tsu_inv_def) blast
    then consider "st_m t = ?l" | "st_m t = ?a"
      | "st_m t = ?b" "st_lk t + ?l / 100 \<le> ?l" "\<bar>st_lk t - ?b\<bar> < ?l / 100"
      | "st_m t \<le> ?l"
      by blast
    then have "st_m t \<le> ?l"
    proof cases
      case 2
      then show ?thesis using zero_shear_bounds(1) [OF assms] l by simp
    next
      case 3
      from 3(3) have "?b - st_lk t < ?l / 100" by linarith
      with 3(1,2) show ?thesis by linarith
    qed simp_all
    with stop nb show False by (simp add: tsu_cond_def)
  qed
  moreover from this P have "st_m t = ?l \<and> (\<exists>xs. st_xarray t = toFixed2 ?l # xs)"
    by (simp add: tsu_inv_def)
  ultimately show ?thesis using t by blast
qed

section \<open>Termination of the shear-force loop\<close>

lemma shear_calculateValue_branches:
  assumes "shear_calculateValue x mn l1 l mn = (ret, mn')"
  shows
    "(x = 0 \<and> ret = l / 100 \<and> mn' = - (l / 100)) \<or>
     (x \<noteq> 0 \<and> \<bar>x - l1\<bar> \<le> l / 100 \<and> x < l1 \<and> ret = l1 \<and> mn' = x) \<or>
     (x \<noteq> 0 \<and> x = l1 \<and> \<bar>mn - l1\<bar> \<le> l / 100 \<and> mn \<noteq> l1 \<and> ret = l1 \<and> mn' = l1) \<or>
     (x \<noteq> 0 \<and> \<bar>x - l\<bar> < l / 100 \<and> ret = l \<and> mn' = mn) \<or>
     (x \<noteq> 0 \<and> \<not> (\<bar>x - l1\<bar> \<le> l / 100 \<and> x < l1) \<and> \<not> \<bar>x - l\<bar> < l / 100 \<and>
        ret = x + l / 100 \<and> mn' = x - mn)"
  using assms
  by (simp add: shear_calculateValue_def Let_def split: if_splits)

lemma shear_body_break:
  "sh_m st = l \<Longrightarrow>
     sh_break (shear_body l l1 r1 r2 w st) \<and> sh_m (shear_body l l1 r1 r2 w st) = l \<and>
     sh_xarray (shear_body l l1 r1 r2 w st) = toFixed2 l # sh_xarray st"
  by (simp add: shear_body_def Let_def)

lemma shear_body_next:
  assumes "sh_m st \<noteq> l" and "shear_calculateValue (sh_m st) (sh_mn st) l1 l (sh_mn st) = (ret, mn')"
  shows "sh_m (shear_body l l1 r1 r2 w st) = ret" and "sh_mn (shear_body l l1 r1 r2 w st) = mn'"
    and "sh_break (shear_body l l1 r1 r2 w st) = sh_break st"
  using assms by (simp_all add: shear_body_def Let_def)

lemma shear_measure_le:
  assumes "\<not> sh_break st"
  shows "shear_measure l l1 st \<le>
    2 + 2 * steps_left l (sh_m st) + (if sh_m st < l1 then 2 else if sh_m st = l1 then 1 else 0)"
  using assms by (simp add: shear_measure_def)

lemma shear_step_decreases:
  assumes l1: "0 < l1" "l1 < l" and inv: "shear_inv l st" and cond: "shear_cond l st"
  shows "shear_inv l (shear_body l l1 r1 r2 w st) \<and>
    shear_measure l l1 (shear_body l l1 r1 r2 w st) < shear_measure l l1 st"
proof (cases "sh_m st = l")
  case True
  with cond shear_body_break [OF True, of l1 r1 r2 w] show ?thesis
    by (simp add: shear_inv_def shear_measure_def shear_cond_def)
next
  case False
  let ?st' = "shear_body l l1 r1 r2 w st"
  let ?x = "sh_m st" and ?mn = "sh_mn st" and ?s = "l / 100"
  have lpos: "0 < l" and spos: "0 < ?s" using l1 by simp_all
  have nb: "\<not> sh_break st" and xl: "?x < l" using cond False by (simp_all add: shear_cond_def)
  obtain ret mn' where cv: "shear_calculateValue ?x ?mn l1 l ?mn = (ret, mn')"
    by (cases "shear_calculateValue ?x ?mn l1 l ?mn") blast
  note f = shear_body_next [OF False cv, of r1 r2 w]
  have nb': "\<not> sh_break ?st'" using f(3) nb by simp
  have old: "shear_measure l l1 st = 2 + 2 * steps_left l ?x + (if ?x < l1 then 2 else 0) +
      (if ?x = l1 \<and> ?mn \<noteq> l1 then 1 else 0)"
    using nb False by (simp add: shear_measure_def)
  have new: "shear_inv l ?st' \<and> shear_measure l l1 ?st' \<le>
      2 + 2 * steps_left l y + (if y < l1 then 2 else if y = l1 then 1 else 0)"
    if "ret = y" "y \<le> l" for y
  proof -
    have m: "sh_m ?st' = y" using f(1) that(1) by simp
    show ?thesis
      using nb' that(2) shear_measure_le [OF nb', of l l1] unfolding m
      by (simp add: shear_inv_def m)
  qed
  from shear_calculateValue_branches [OF cv]
  consider
    (first) "?x = 0" "ret = ?s"
    | (support) "\<bar>?x - l1\<bar> \<le> ?s" "?x < l1" "ret = l1"
    | (second) "?x = l1" "?mn \<noteq> l1" "ret = l1" "mn' = l1"
    | (finish) "ret = l"
    | (regular) "\<not> (\<bar>?x - l1\<bar> \<le> ?s \<and> ?x < l1)" "\<not> \<bar>?x - l\<bar> < ?s" "ret = ?x + ?s"
    by blast
  then show ?thesis
  proof cases
    case first
    have "steps_left l ?s + 1 = steps_left l 0"
      using steps_left_step [OF lpos, of 0] lpos by simp
    moreover have "shear_inv l ?st' \<and> shear_measure l l1 ?st' \<le>
        2 + 2 * steps_left l ?s + (if ?s < l1 then 2 else if ?s = l1 then 1 else 0)"
      using new [of ?s] first(2) lpos by simp
    ultimately show ?thesis using old first(1) l1(1) by (simp split: if_splits)
  next
    case support
    have "steps_left l l1 \<le> steps_left l ?x"
      using steps_left_mono [OF lpos, of ?x l1] support(2) by simp
    moreover have "shear_inv l ?st' \<and> shear_measure l l1 ?st' \<le> 2 + 2 * steps_left l l1 + 1"
      using new [of l1] support(3) l1(2) by simp
    ultimately show ?thesis using old support(2) by simp
  next
    case second
    have "sh_m ?st' = l1" "sh_mn ?st' = l1" using f(1,2) second(3,4) by simp_all
    then have "shear_inv l ?st'" and "shear_measure l l1 ?st' = 2 + 2 * steps_left l l1"
      using nb' l1(2) by (simp_all add: shear_inv_def shear_measure_def)
    then show ?thesis using old second(1,2) by simp
  next
    case finish
    have "sh_m ?st' = l" using f(1) finish by simp
    then have "shear_inv l ?st'" and "shear_measure l l1 ?st' = 1"
      using nb' by (simp_all add: shear_inv_def shear_measure_def)
    then show ?thesis using old by simp
  next
    case regular
    have room: "?x + ?s \<le> l" using regular(2) xl by linarith
    have n: "shear_inv l ?st' \<and> shear_measure l l1 ?st' \<le> 2 + 2 * steps_left l (?x + ?s) +
        (if ?x + ?s < l1 then 2 else if ?x + ?s = l1 then 1 else 0)"
      using new [of "?x + ?s"] regular(3) room by simp
    have d: "steps_left l (?x + ?s) + 1 = steps_left l ?x"
      by (rule steps_left_step [OF lpos xl])
    show ?thesis
    proof (cases "?x < l1")
      case True
      with regular(1) have "?x + ?s < l1" by linarith
      with n d old True show ?thesis by simp
    next
      case False
      then have "\<not> ?x + ?s < l1" "?x + ?s \<noteq> l1" using spos by simp_all
      with n d old show ?thesis by simp
    qed
  qed
qed

lemma shear_loop_terminates:
  assumes "0 < l1" "l1 < l"
  shows "\<exists>t. shear_loop l l1 r1 r2 w = Some t \<and> sh_break t \<and> sh_m t = l \<and>
    (\<exists>xs. sh_xarray t = toFixed2 l # xs)"
proof -
  have step: "shear_inv l (shear_body l l1 r1 r2 w st) \<and>
      shear_measure l l1 (shear_body l l1 r1 r2 w st) < shear_measure l l1 st"
    if "shear_inv l st" "shear_cond l st" for st
    using assms that by (rule shear_step_decreases)
  have init: "shear_inv l shear_init"
    using assms by (simp add: shear_inv_def shear_init_def)
  have "\<exists>t. while_option (shear_cond l) (shear_body l l1 r1 r2 w) shear_init = Some t"
    by (rule measure_while_option_Some
        [where P = "shear_inv l" and f = "shear_measure l l1", OF step init])
  then obtain t where t: "shear_loop l l1 r1 r2 w = Some t"
    unfolding shear_loop_def by blast
  have P: "shear_inv l t"
    by (rule while_option_rule [where P = "shear_inv l", OF _ t [unfolded shear_loop_def] init])
      (use step in blast)
  from t have "\<not> shear_cond l t"
    unfolding shear_loop_def by (rule while_option_stop)
  with P have "sh_break t \<and> sh_m t = l \<and> (\<exists>xs. sh_xarray t = toFixed2 l # xs)"
    by (auto simp: shear_inv_def shear_cond_def split: if_splits)
  with t show ?thesis by blast
qed

section \<open>The samples a two-span loop writes\<close>

lemma tsu_body_arrays:
  "st_xarray (tsu_body yf l l1 r1 r3 w st) = toFixed2 (st_m st) # st_xarray st"
  "st_yarray (tsu_body yf l l1 r1 r3 w st) = toFixed2 (yf (st_i st) (st_m st)) # st_yarray st"
  by (simp_all add: tsu_body_def Let_def split: prod.split)

lemma tsu_body_flags:
  "st_break (tsu_body yf l l1 r1 r3 w st) \<longleftrightarrow> st_break st \<or> st_m st = l"
  "st_m st \<noteq> l \<Longrightarrow> st_i (tsu_body yf l l1 r1 r3 w st) = st_i st + 1"
  by (simp_all add: tsu_body_def Let_def split: prod.split)

lemma tsu_iter_arrays:
  "st_xarray ((tsu_body yf l l1 r1 r3 w ^^ n) st) =
     rev (map (\<lambda>k. toFixed2 (st_m ((tsu_body yf l l1 r1 r3 w ^^ k) st))) [0..<n]) @ st_xarray st"
  "st_yarray ((tsu_body yf l l1 r1 r3 w ^^ n) st) =
     rev (map (\<lambda>k. toFixed2 (yf (st_i ((tsu_body yf l l1 r1 r3 w ^^ k) st))
                               (st_m ((tsu_body yf l l1 r1 r3 w ^^ k) st)))) [0..<n]) @ st_yarray st"
  by (induction n) (simp_all add: tsu_body_arrays)

lemma tsu_iter_index:
  "\<not> st_break ((tsu_body yf l l1 r1 r3 w ^^ n) st) \<Longrightarrow>
     st_i ((tsu_body yf l l1 r1 r3 w ^^ n) st) = st_i st + n"
  by (induction n) (simp_all add: tsu_body_flags)

lemma tsu_loop_data:
  assumes "tsu_loop yf l l1 r1 r3 w = Some t"
  shows "\<exists>K. t = (tsu_body yf l l1 r1 r3 w ^^ K) tsu_init \<and> \<not> tsu_cond l t \<and>
    (\<forall>k<K. tsu_cond l ((tsu_body yf l l1 r1 r3 w ^^ k) tsu_init)) \<and>
    rev (st_xarray t) =
      map (\<lambda>k. toFixed2 (st_m ((tsu_body yf l l1 r1 r3 w ^^ k) tsu_init))) [0..<K] \<and>
    rev (st_yarray t) =
      map (\<lambda>k. toFixed2 (yf k (st_m ((tsu_body yf l l1 r1 r3 w ^^ k) tsu_init)))) [0..<K]"
proof -
  let ?it = "\<lambda>k. (tsu_body yf l l1 r1 r3 w ^^ k) tsu_init"
  from while_option_SomeD [OF assms [unfolded tsu_loop_def]]
  obtain K where K: "t = ?it K" "\<forall>k<K. tsu_cond l (?it k)" and stop: "\<not> tsu_cond l t"
    by blast
  have idx: "st_i (?it k) = k" if "k < K" for k
  proof -
    from K(2) that have "\<not> st_break (?it k)" by (simp add: tsu_cond_def)
    from tsu_iter_index [OF this] show ?thesis by (simp add: tsu_init_def)
  qed
  have "rev (st_xarray t) = map (\<lambda>k. toFixed2 (st_m (?it k))) [0..<K]"
    unfolding K(1) tsu_iter_arrays by (simp add: tsu_init_def)
  moreover have "rev (st_yarray t) = map (\<lambda>k. toFixed2 (yf (st_i (?it k)) (st_m (?it k)))) [0..<K]"
    unfolding K(1) tsu_iter_arrays by (simp add: tsu_init_def)
  then have "rev (st_yarray t) = map (\<lambda>k. toFixed2 (yf k (st_m (?it k)))) [0..<K]"
    using idx by simp
  ultimately show ?thesis using K stop by blast
qed

lemma tsu_body_step:
  "(st_m (tsu_body yf l l1 r1 r3 w st), st_lk (tsu_body yf l l1 r1 r3 w st),
      st_break (tsu_body yf l l1 r1 r3 w st)) =
    tsu_step l l1 r1 r3 w (st_m st, st_lk st, st_break st)"
  by (simp add: tsu_body_def tsu_step_def Let_def split: prod.split)

lemma tsu_iter_step:
  "(st_m ((tsu_body yf l l1 r1 r3 w ^^ k) tsu_init), st_lk ((tsu_body yf l l1 r1 r3 w ^^ k) tsu_init),
      st_break ((tsu_body yf l l1 r1 r3 w ^^ k) tsu_init)) =
    (tsu_step l l1 r1 r3 w ^^ k) (0, 0, False)"
proof (induction k)
  case 0
  show ?case by (simp add: tsu_init_def)
next
  case (Suc k)
  show ?case by (simp only: funpow.simps o_apply tsu_body_step Suc)
qed

lemma tsu_iter_position:
  "st_m ((tsu_body yf l l1 r1 r3 w ^^ k) tsu_init) = tsu_position l l1 r1 r3 w k"
proof -
  let ?it = "(tsu_body yf l l1 r1 r3 w ^^ k) tsu_init"
  have "fst (st_m ?it, st_lk ?it, st_break ?it) = fst ((tsu_step l l1 r1 r3 w ^^ k) (0, 0, False))"
    by (simp only: tsu_iter_step)
  then show ?thesis by (simp add: tsu_position_def)
qed

lemma tsu_step_eq:
  assumes "w \<noteq> 0"
  shows "tsu_step l l1 r1 r3 w (x, mn, brk) =
    (if x = l then (x, mn, True)
     else if x = 0 then (l / 100, - (l / 100), brk)
     else if \<bar>x - l1\<bar> \<le> l / 100 \<and> x < l1 then (l1, x, brk)
     else if x < l1 \<and> x \<noteq> r1 / w \<and> mn \<noteq> r1 / w \<and> \<bar>x - r1 / w\<bar> \<le> l / 100 then (r1 / w, x, brk)
     else if \<bar>x - l\<bar> < l / 100 then (l, mn, brk)
     else if x > l1 \<and> x \<noteq> l - r3 / w \<and> mn \<noteq> l - r3 / w \<and> \<bar>x - (l - r3 / w)\<bar> < l / 100
       then (l - r3 / w, x, brk)
     else if x = r1 / w \<or> x = l - r3 / w then (mn + l / 100, x, brk)
     else (x + l / 100, 0, brk))"
  unfolding tsu_step_def
  by (simp add: calculateValue_eq [OF assms]
      if_distrib [of "\<lambda>p. case p of (ret, m', lk') \<Rightarrow> (ret, lk', brk)"]
      split del: if_split cong: if_cong)

lemma tsu_iter_cond:
  "tsu_cond l ((tsu_body yf l l1 r1 r3 w ^^ k) tsu_init) \<longleftrightarrow>
     (case (tsu_step l l1 r1 r3 w ^^ k) (0, 0, False) of (m, lk, brk) \<Rightarrow> \<not> brk \<and> m \<le> l)"
  unfolding tsu_iter_step [symmetric, where yf = yf] by (simp add: tsu_cond_def)

lemma tsu_loop_curve:
  assumes "tsu_loop yf l l1 r1 r3 w = Some t"
  shows "length (st_xarray t) = length (st_yarray t)"
    and "rev (st_xarray t) = map (\<lambda>k. toFixed2 (tsu_position l l1 r1 r3 w k)) [0..<length (st_yarray t)]"
    and "rev (st_yarray t) =
      map (\<lambda>k. toFixed2 (yf k (tsu_position l l1 r1 r3 w k))) [0..<length (st_yarray t)]"
    and "(\<And>k. k \<le> n \<Longrightarrow>
        (case (tsu_step l l1 r1 r3 w ^^ k) (0, 0, False) of (m, lk, brk) \<Rightarrow> \<not> brk \<and> m \<le> l)) \<Longrightarrow>
      n < length (st_yarray t)"
proof -
  from tsu_loop_data [OF assms] obtain K where
    K: "t = (tsu_body yf l l1 r1 r3 w ^^ K) tsu_init" "\<not> tsu_cond l t"
    and x: "rev (st_xarray t) = map (\<lambda>k. toFixed2 (tsu_position l l1 r1 r3 w k)) [0..<K]"
    and y: "rev (st_yarray t) = map (\<lambda>k. toFixed2 (yf k (tsu_position l l1 r1 r3 w k))) [0..<K]"
    unfolding tsu_iter_position by blast
  from x have "length (rev (st_xarray t)) =
      length (map (\<lambda>k. toFixed2 (tsu_position l l1 r1 r3 w k)) [0..<K])"
    by (rule arg_cong)
  then have lx: "length (st_xarray t) = K" by simp
  from y have "length (rev (st_yarray t)) =
      length (map (\<lambda>k. toFixed2 (yf k (tsu_position l l1 r1 r3 w k))) [0..<K])"
    by (rule arg_cong)
  then have ly: "length (st_yarray t) = K" by simp
  show "length (st_xarray t) = length (st_yarray t)" using lx ly by simp
  show "rev (st_xarray t) = map (\<lambda>k. toFixed2 (tsu_position l l1 r1 r3 w k)) [0..<length (st_yarray t)]"
    using x ly by simp
  show "rev (st_yarray t) =
      map (\<lambda>k. toFixed2 (yf k (tsu_position l l1 r1 r3 w k))) [0..<length (st_yarray t)]"
    using y ly by simp
  show "n < length (st_yarray t)"
    if "\<And>k. k \<le> n \<Longrightarrow>
        (case (tsu_step l l1 r1 r3 w ^^ k) (0, 0, False) of (m, lk, brk) \<Rightarrow> \<not> brk \<and> m \<le> l)"
  proof (rule ccontr)
    assume "\<not> n < length (st_yarray t)"
    then have "K \<le> n" using ly by simp
    from that [OF this] have "tsu_cond l t" unfolding K(1) tsu_iter_cond .
    with K(2) show False by simp
  qed
qed

lemma shear_body_step:
  "(sh_m (shear_body l l1 r1 r2 w st), sh_mn (shear_body l l1 r1 r2 w st),
      sh_break (shear_body l l1 r1 r2 w st)) =
    shear_step l l1 (sh_m st, sh_mn st, sh_break st)"
  by (simp add: shear_body_def shear_step_def Let_def split: prod.split)

lemma shear_iter_step:
  "(sh_m ((shear_body l l1 r1 r2 w ^^ k) shear_init), sh_mn ((shear_body l l1 r1 r2 w ^^ k) shear_init),
      sh_break ((shear_body l l1 r1 r2 w ^^ k) shear_init)) =
    (shear_step l l1 ^^ k) (0, 0, False)"
proof (induction k)
  case 0
  show ?case by (simp add: shear_init_def)
next
  case (Suc k)
  show ?case by (simp only: funpow.simps o_apply shear_body_step Suc)
qed

lemma shear_body_arrays:
  "sh_xarray (shear_body l l1 r1 r2 w st) = toFixed2 (sh_m st) # sh_xarray st"
  "sh_yarray (shear_body l l1 r1 r2 w st) =
     toFixed2 (calculate (sh_m st) (sh_mn st) (sh_m st) r1 r2 w l l1) # sh_yarray st"
  by (simp_all add: shear_body_def Let_def split: prod.split)

lemma shear_iter_arrays:
  "sh_xarray ((shear_body l l1 r1 r2 w ^^ n) st) =
     rev (map (\<lambda>k. toFixed2 (sh_m ((shear_body l l1 r1 r2 w ^^ k) st))) [0..<n]) @ sh_xarray st"
  "sh_yarray ((shear_body l l1 r1 r2 w ^^ n) st) =
     rev (map (\<lambda>k. toFixed2 (calculate (sh_m ((shear_body l l1 r1 r2 w ^^ k) st))
                 (sh_mn ((shear_body l l1 r1 r2 w ^^ k) st))
                 (sh_m ((shear_body l l1 r1 r2 w ^^ k) st)) r1 r2 w l l1)) [0..<n]) @ sh_yarray st"
  by (induction n) (simp_all add: shear_body_arrays)

lemma shear_iter_fields:
  "sh_m ((shear_body l l1 r1 r2 w ^^ k) shear_init) = fst ((shear_step l l1 ^^ k) (0, 0, False))"
  "sh_mn ((shear_body l l1 r1 r2 w ^^ k) shear_init) = fst (snd ((shear_step l l1 ^^ k) (0, 0, False)))"
  "sh_break ((shear_body l l1 r1 r2 w ^^ k) shear_init) = snd (snd ((shear_step l l1 ^^ k) (0, 0, False)))"
  unfolding shear_iter_step [symmetric, where ?r1.0 = r1 and ?r2.0 = r2 and w = w] by simp_all

lemma shear_loop_curve:
  assumes "shear_loop l l1 r1 r2 w = Some t"
  shows "rev (sh_xarray t) =
      map (\<lambda>k. toFixed2 (fst ((shear_step l l1 ^^ k) (0, 0, False)))) [0..<length (sh_xarray t)]"
    and "rev (sh_yarray t) =
      map (\<lambda>k. toFixed2 (case (shear_step l l1 ^^ k) (0, 0, False) of
                  (m, mn, brk) \<Rightarrow> calculate m mn m r1 r2 w l l1)) [0..<length (sh_xarray t)]"
    and "(\<And>k. k \<le> n \<Longrightarrow>
        (case (shear_step l l1 ^^ k) (0, 0, False) of (m, mn, brk) \<Rightarrow> \<not> brk \<and> m \<le> l)) \<Longrightarrow>
      n < length (sh_xarray t)"
proof -
  let ?it = "\<lambda>k. (shear_body l l1 r1 r2 w ^^ k) shear_init"
  from while_option_SomeD [OF assms [unfolded shear_loop_def]]
  obtain K where K: "t = ?it K" and stop: "\<not> shear_cond l t" by blast
  have x: "rev (sh_xarray t) = map (\<lambda>k. toFixed2 (fst ((shear_step l l1 ^^ k) (0, 0, False)))) [0..<K]"
    unfolding K by (simp only: shear_iter_arrays shear_iter_fields) (simp add: shear_init_def)
  have y: "rev (sh_yarray t) = map (\<lambda>k. toFixed2 (case (shear_step l l1 ^^ k) (0, 0, False) of
                  (m, mn, brk) \<Rightarrow> calculate m mn m r1 r2 w l l1)) [0..<K]"
    unfolding K
    by (simp only: shear_iter_arrays shear_iter_fields) (simp add: shear_init_def case_prod_beta)
  from x have "length (rev (sh_xarray t)) =
      length (map (\<lambda>k. toFixed2 (fst ((shear_step l l1 ^^ k) (0, 0, False)))) [0..<K])"
    by (rule arg_cong)
  then have lx: "length (sh_xarray t) = K" by simp
  show "rev (sh_xarray t) =
      map (\<lambda>k. toFixed2 (fst ((shear_step l l1 ^^ k) (0, 0, False)))) [0..<length (sh_xarray t)]"
    using x lx by simp
  show "rev (sh_yarray t) =
      map (\<lambda>k. toFixed2 (case (shear_step l l1 ^^ k) (0, 0, False) of
                  (m, mn, brk) \<Rightarrow> calculate m mn m r1 r2 w l l1)) [0..<length (sh_xarray t)]"
    using y lx by simp
  show "n < length (sh_xarray t)"
    if "\<And>k. k \<le> n \<Longrightarrow>
        (case (shear_step l l1 ^^ k) (0, 0, False) of (m, mn, brk) \<Rightarrow> \<not> brk \<and> m \<le> l)"
  proof (rule ccontr)
    assume "\<not> n < length (sh_xarray t)"
    then have "K \<le> n" using lx by simp
    from that [OF this] have "shear_cond l t"
      unfolding K shear_cond_def by (simp only: shear_iter_fields) (simp add: case_prod_beta)
    with stop show False by simp
  qed
qed

lemma shear_step_eq:
  "shear_step l l1 (x, mn, brk) =
    (if x = l then (x, mn, True)
     else if x = 0 then (l / 100, - (l / 100), brk)
     else if \<bar>x - l1\<bar> \<le> l / 100 \<and> x < l1 then (l1, x, brk)
     else if x = l1 \<and> \<bar>mn - l1\<bar> \<le> l / 100 \<and> mn \<noteq> x then (l1, x, brk)
     else if \<bar>x - l\<bar> < l / 100 then (l, mn, brk)
     else (x + l / 100, x - mn, brk))"
  unfolding shear_step_def shear_calculateValue_def
  by (simp add: Let_def
      if_distrib [of "\<lambda>p. case p of (ret, mn') \<Rightarrow> (ret, mn', brk)"]
      split del: if_split cong: if_cong)

section \<open>Runs on concrete beams\<close>

lemma r_5_5: "tsu_r1 1 5 5 = 15 / 8" "tsu_r3 1 5 5 = 15 / 8" "tsu_r2 1 5 5 = 25 / 4"
  by (simp_all add: tsu_r1_def tsu_r2_def tsu_r3_def tsu_m1_def)

lemma run_5_5: "(tsu_step 10 5 (15 / 8) (15 / 8) 1 ^^ 12) (0, 0, False) = (6 / 5, 0, False)"
  by (simp add: eval_nat_numeral tsu_step_eq)

lemma run_5_5_upto:
  assumes "k \<le> 12"
  shows "case (tsu_step 10 5 (15 / 8) (15 / 8) 1 ^^ k) (0, 0, False) of
    (m, lk, brk) \<Rightarrow> \<not> brk \<and> m \<le> 10"
proof -
  from assms have "k = 0 \<or> k = 1 \<or> k = 2 \<or> k = 3 \<or> k = 4 \<or> k = 5 \<or> k = 6 \<or> k = 7 \<or>
      k = 8 \<or> k = 9 \<or> k = 10 \<or> k = 11 \<or> k = 12"
    by presburger
  then show ?thesis
    by (elim disjE) (simp_all add: eval_nat_numeral tsu_step_eq)
qed

lemma toFixed2_73_400: "toFixed2 (73 / 400) = 9 / 50"
  using toFixed2_nonneg_eq [of "73 / 400" 18] by simp

lemma r_4_9: "tsu_r1 1 4 9 = 3 / 32" "tsu_r3 1 4 9 = 263 / 72" "tsu_r2 1 4 9 = 2665 / 288"
  by (simp_all add: tsu_r1_def tsu_r2_def tsu_r3_def tsu_m1_def)

lemma run_4_9:
  "(tsu_step 13 4 (3 / 32) (263 / 72) 1 ^^ 0) (0, 0, False) = (0, 0, False)"
  "(tsu_step 13 4 (3 / 32) (263 / 72) 1 ^^ Suc 0) (0, 0, False) = (13 / 100, - (13 / 100), False)"
  "(tsu_step 13 4 (3 / 32) (263 / 72) 1 ^^ 2) (0, 0, False) = (3 / 32, 13 / 100, False)"
  by (simp_all add: eval_nat_numeral tsu_step_eq)

lemma pos_4_9:
  "tsu_position 13 4 (3 / 32) (263 / 72) 1 0 = 0"
  "tsu_position 13 4 (3 / 32) (263 / 72) 1 (Suc 0) = 13 / 100"
  "tsu_position 13 4 (3 / 32) (263 / 72) 1 2 = 3 / 32"
  unfolding tsu_position_def run_4_9 by simp_all

lemma run_4_9_upto:
  assumes "k \<le> 2"
  shows "case (tsu_step 13 4 (3 / 32) (263 / 72) 1 ^^ k) (0, 0, False) of
    (m, lk, brk) \<Rightarrow> \<not> brk \<and> m \<le> 13"
proof -
  from assms have "k = 0 \<or> k = Suc 0 \<or> k = 2" by presburger
  then show ?thesis by (elim disjE) (simp_all only: run_4_9, simp_all)
qed

lemma toFixed2_3_32: "toFixed2 (3 / 32) = 9 / 100"
  using toFixed2_nonneg_eq [of "3 / 32" 9] by simp

lemma toFixed2_13_100: "toFixed2 (13 / 100) = 13 / 100"
  using toFixed2_hundredths [of 13] by simp

lemma take3_map_upt:
  assumes "2 < n"
  shows "take 3 (map f [0..<n]) = [f 0, f 1, f 2]"
proof -
  have "take 3 [0..<n] = [0..<3]" using assms by (simp add: take_upt)
  also have "\<dots> = [0, 1, 2]" by (simp add: eval_nat_numeral upt_rec)
  finally show ?thesis by (simp add: take_map)
qed

lemma upt_split2:
  assumes "2 < n"
  shows "[0..<n] = [0, Suc 0] @ [2..<n]"
proof -
  from assms obtain m where n: "n = 2 + m" using le_Suc_ex [of 2 n] by auto
  have "[0..<2 + m] = [0..<2] @ [2..<2 + m]" by (rule upt_add_eq_append) simp
  moreover have "[0..<2] = [0, Suc 0]" by (simp add: eval_nat_numeral upt_rec)
  ultimately show ?thesis unfolding n by (simp only:)
qed

lemma r_1_99: "tsu_r1 1 1 99 = - (9699 / 8)" "tsu_r2 1 1 99 = 252475 / 198"
  by (simp_all add: tsu_r1_def tsu_r2_def tsu_r3_def tsu_m1_def)

lemma run_1_99:
  "(shear_step 100 1 ^^ 0) (0, 0, False) = (0, 0, False)"
  "(shear_step 100 1 ^^ Suc 0) (0, 0, False) = (1, - 1, False)"
  "(shear_step 100 1 ^^ 2) (0, 0, False) = (2, 2, False)"
  by (simp_all add: eval_nat_numeral shear_step_eq)

lemma run_1_99_upto:
  assumes "k \<le> 2"
  shows "case (shear_step 100 1 ^^ k) (0, 0, False) of (m, mn, brk) \<Rightarrow> \<not> brk \<and> m \<le> 100"
proof -
  from assms have "k = 0 \<or> k = Suc 0 \<or> k = 2" by presburger
  then show ?thesis by (elim disjE) (simp_all only: run_1_99, simp_all)
qed

lemma shear_step_1_99_ge2:
  assumes "2 \<le> fst p"
  shows "2 \<le> fst (shear_step 100 1 p)"
proof -
  obtain x mn brk where p: "p = (x, mn, brk)" by (cases p) auto
  with assms have "2 \<le> x" by simp
  then show ?thesis unfolding p shear_step_eq by simp
qed

lemma run_1_99_ge2:
  assumes "2 \<le> k"
  shows "2 \<le> fst ((shear_step 100 1 ^^ k) (0, 0, False))"
  using assms
proof (induction k rule: nat_induct_at_least)
  case base
  show ?case by (simp only: run_1_99) simp
next
  case (Suc n)
  then show ?case by (simp only: funpow.simps o_apply shear_step_1_99_ge2)
qed

text \<open>
  For comparison, the beam with spans \<open>5\<close> and \<open>5\<close> under the load \<open>1\<close>: iterations
  50 and 51 of the shear-force loop are both at the middle support, the first with
  the left-limit value \<open>r1 - w * l1\<close> and the second with the right-limit value
  \<open>r1 + r2 - w * l1\<close>, which differ by \<open>r2\<close>.
\<close>

lemma shear_support_5_5:
  "(shear_step 10 5 ^^ 50) (0, 0, False) = (5, 49 / 10, False)"
  "(shear_step 10 5 ^^ 51) (0, 0, False) = (5, 5, False)"
  "(shear_step 10 5 ^^ 52) (0, 0, False) = (51 / 10, 0, False)"
  "calculate 5 (49 / 10) 5 (tsu_r1 1 5 5) (tsu_r2 1 5 5) 1 10 5 = tsu_r1 1 5 5 - 1 * 5"
  "calculate 5 5 5 (tsu_r1 1 5 5) (tsu_r2 1 5 5) 1 10 5 = (tsu_r1 1 5 5 + tsu_r2 1 5 5) - 1 * 5"
  by (simp_all add: eval_nat_numeral shear_step_eq calculate_def)

section \<open>Claims\<close>

text \<open>
  C1. With positive spans, each two-span method computes \<open>m1\<close>, \<open>r1\<close>, \<open>r3\<close> and
  \<open>r2\<close> by the formulas below, and the three reactions add up to the total load
  \<open>w * (l1 + l2)\<close>. The equation is exact in the rational model; the rounding of
  floating-point arithmetic is outside it.
\<close>

theorem tsu_reactions_balance:
  assumes "0 < l1" and "0 < l2"
  shows
    "tsu_m1 w l1 l2 = - (w * l2 ^ 3 + w * l1 ^ 3) / (8 * (l1 + l2)) \<and>
     tsu_r1 w l1 l2 = tsu_m1 w l1 l2 / l1 + w * l1 / 2 \<and>
     tsu_r3 w l1 l2 = tsu_m1 w l1 l2 / l2 + w * l2 / 2 \<and>
     tsu_r2 w l1 l2 = w * l1 + w * l2 - tsu_r1 w l1 l2 - tsu_r3 w l1 l2 \<and>
     tsu_r1 w l1 l2 + tsu_r2 w l1 l2 + tsu_r3 w l1 l2 = w * (l1 + l2)"
  by (simp add: tsu_m1_def tsu_r1_def tsu_r3_def tsu_r2_def algebra_simps)

text \<open>
  The witness is the spec's fixture of two equal spans \<open>5\<close> under the load \<open>1\<close>:
  \<open>r1 = r3 = 0.375 * w * l1\<close> and \<open>r2 = 1.25 * w * l1\<close>.
\<close>

theorem tsu_reactions_balance_witness:
  "(0 :: rat) < 5 \<and> tsu_r1 1 5 5 + tsu_r2 1 5 5 + tsu_r3 1 5 5 = 1 * (5 + 5) \<and>
   tsu_r1 1 5 5 = 3 / 8 * 1 * 5 \<and> tsu_r3 1 5 5 = 3 / 8 * 1 * 5 \<and> tsu_r2 1 5 5 = 5 / 4 * 1 * 5"
proof -
  have h: "(0 :: rat) < 5" by simp
  from tsu_reactions_balance [OF h h, of 1]
  have "tsu_r1 1 5 5 + tsu_r2 1 5 5 + tsu_r3 1 5 5 = 1 * (5 + 5)" by blast
  with h show ?thesis by (simp add: r_5_5)
qed

text \<open>
  C2, evaluated for the beam with spans \<open>1\<close> and \<open>99\<close> under the load \<open>1\<close>, where
  the middle support is the first grid position \<open>l / 100\<close>: the shear-force method
  returns a curve whose positions start \<open>0\<close>, \<open>1\<close>, \<open>2\<close>; the sample at the support
  carries the left-limit value \<open>r1 - w * l1\<close>, and no other sample lies at the support.
\<close>

theorem shear_support_sampled_once:
  "\<exists>e. tsu_getShearForceEquation \<lparr>primarySpan = 1, secondarySpan = 99,
          material = \<lparr>name = ''steel'', EI = 2000000000\<rparr>, j2 = 1\<rparr> 1 = Some e \<and>
     take 3 (xdata e) = [0, 1, 2] \<and>
     ydata e ! 1 = toFixed2 (tsu_r1 1 1 99 - 1 * 1) \<and>
     filter (\<lambda>x. x = 1) (xdata e) = [1]"
proof -
  let ?b = "\<lparr>primarySpan = 1, secondarySpan = 99,
          material = \<lparr>name = ''steel'', EI = 2000000000\<rparr>, j2 = 1\<rparr>"
  let ?f = "\<lambda>k. toFixed2 (fst ((shear_step 100 1 ^^ k) (0, 0, False)))"
  let ?g = "\<lambda>k. toFixed2 (case (shear_step 100 1 ^^ k) (0, 0, False) of
                  (m, mn, brk) \<Rightarrow> calculate m mn m (- (9699 / 8)) (252475 / 198) 1 100 1)"
  from shear_loop_terminates [of 1 100 "- (9699 / 8)" "252475 / 198" 1] obtain t where
    t: "shear_loop 100 1 (- (9699 / 8)) (252475 / 198) 1 = Some t"
    by auto
  then have e: "tsu_getShearForceEquation ?b 1 =
      Some \<lparr>analys = ''shearforce'', xdata = rev (sh_xarray t), ydata = rev (sh_yarray t)\<rparr>"
    (is "_ = Some ?e")
    by (simp add: tsu_getShearForceEquation_def Let_def r_1_99)
  let ?n = "length (sh_xarray t)"
  have len: "2 < ?n"
    using shear_loop_curve(3) [OF t, of 2] run_1_99_upto by simp
  have x: "xdata ?e = map ?f [0..<?n]" using shear_loop_curve(1) [OF t] by simp
  have y: "ydata ?e = map ?g [0..<?n]" using shear_loop_curve(2) [OF t] by simp
  have f01: "?f 0 = 0" "?f (Suc 0) = 1" "?f 2 = 2"
    using toFixed2_of_int [of 0] toFixed2_of_int [of 1] toFixed2_of_int [of 2]
    by (simp_all only: run_1_99 fst_conv) simp_all
  have "map ?f ([0, Suc 0] @ [2..<?n]) = [?f 0, ?f (Suc 0)] @ map ?f [2..<?n]"
    by (simp only: map_append list.map)
  then have xs: "xdata ?e = [0, 1] @ map ?f [2..<?n]"
    unfolding x upt_split2 [OF len] by (simp only: f01)
  have first3: "take 3 (xdata ?e) = [0, 1, 2]"
  proof -
    have "[2..<?n] = 2 # [3..<?n]" using len by (simp add: upt_conv_Cons)
    then have "map ?f [2..<?n] = ?f 2 # map ?f [3..<?n]" by (simp only: list.map)
    then show ?thesis unfolding xs by (simp only: f01) simp
  qed
  have tail: "filter (\<lambda>x. x = 1) (map ?f [2..<?n]) = []"
    by (simp add: filter_empty_conv toFixed2_ge2 [OF run_1_99_ge2])
  have once: "filter (\<lambda>x. x = 1) (xdata ?e) = [1]"
    unfolding xs by (simp only: filter_append tail) simp
  have "ydata ?e ! 1 = ?g (Suc 0)"
    unfolding y using len by (simp del: funpow.simps)
  also have "\<dots> = toFixed2 (tsu_r1 1 1 99 - 1 * 1)"
    by (simp only: run_1_99 prod.case) (simp add: calculate_def r_1_99)
  finally have left: "ydata ?e ! 1 = toFixed2 (tsu_r1 1 1 99 - 1 * 1)" .
  from e first3 left once show ?thesis by blast
qed

text \<open>
  C3, evaluated for the beam with spans \<open>4\<close> and \<open>9\<close> under the load \<open>1\<close>: the
  bending-moment method returns a curve whose \<open>xdata\<close> starts \<open>0.00\<close>, \<open>0.13\<close>, \<open>0.09\<close>.
  The zero-shear position \<open>r1 / w = 3 / 32\<close> lies before the first grid position
  \<open>13 / 100\<close> and within the tolerance of it, so the third sample steps back.
\<close>

theorem bending_xdata_not_monotone:
  "\<exists>e. tsu_getBendingMomentEquation \<lparr>primarySpan = 4, secondarySpan = 9,
          material = \<lparr>name = ''steel'', EI = 2000000000\<rparr>, j2 = 1\<rparr> 1 = Some e \<and>
     take 3 (xdata e) = [0, 13 / 100, 9 / 100] \<and> \<not> sorted (xdata e)"
proof -
  let ?b = "\<lparr>primarySpan = 4, secondarySpan = 9,
          material = \<lparr>name = ''steel'', EI = 2000000000\<rparr>, j2 = 1\<rparr>"
  let ?yf = "\<lambda>i m. calculateRoundedValue m 13 4 (3 / 32) 1 (2665 / 288)"
  from tsu_loop_terminates [of 4 9 1 ?yf] obtain t where
    t: "tsu_loop ?yf 13 4 (3 / 32) (263 / 72) 1 = Some t"
    by (auto simp: r_4_9)
  then have e: "tsu_getBendingMomentEquation ?b 1 =
      Some \<lparr>analys = ''bendingmoment'', xdata = rev (st_xarray t), ydata = rev (st_yarray t)\<rparr>"
    (is "_ = Some ?e")
    by (simp add: tsu_getBendingMomentEquation_def Let_def r_4_9)
  have len: "2 < length (st_yarray t)"
    using tsu_loop_curve(4) [OF t, of 2] run_4_9_upto by simp
  have first3: "take 3 (xdata ?e) = [0, 13 / 100, 9 / 100]"
    using tsu_loop_curve(2) [OF t]
    by (simp add: take3_map_upt [OF len] pos_4_9 toFixed2_zero toFixed2_13_100 toFixed2_3_32)
  have "\<not> sorted (xdata ?e)"
  proof
    assume "sorted (xdata ?e)"
    then have "sorted (take 3 (xdata ?e))" by (rule sorted_wrt_take)
    then have "sorted [0, 13 / 100, 9 / 100 :: rat]" by (simp only: first3)
    then have "(13 / 100 :: rat) \<le> 9 / 100" by (simp only: sorted2 list.set ball_simps)
    then show False by simp
  qed
  with first3 e show ?thesis by blast
qed



text \<open>
  C5, as the code has it. With positive spans, the value \<^verbatim>\<open>calculateRoundedValue\<close>
  returns at a position \<open>x\<close> is \<open>0\<close> at \<open>0\<close> and at \<open>l\<close>, and otherwise the negated
  two-decimal rounding of \<open>r1 * x - w * x\<^sup>2 / 2\<close> for \<open>0 < x < l1\<close>, of
  \<open>r1 * x + r2 * (x - l1) - w * x\<^sup>2 / 2\<close> for \<open>l1 < x < l\<close>, and of
  \<open>r1 * l1 - w * l1\<^sup>2 / 2\<close> at \<open>l1\<close>. The two unrounded branch expressions agree at
  \<open>l1\<close>. The \<open>ydata\<close> of a returned bending-moment curve are these values at the
  positions of the iterations.
\<close>

theorem bending_value_rounded:
  assumes "0 < primarySpan beam" and "0 < secondarySpan beam"
  shows
    "(let w = load; l1 = primarySpan beam; l2 = secondarySpan beam; l = l1 + l2;
          r1 = tsu_r1 w l1 l2; r3 = tsu_r3 w l1 l2; r2 = tsu_r2 w l1 l2;
          M = (\<lambda>x. calculateRoundedValue x l l1 r1 w r2) in
      M 0 = 0 \<and> M l = 0 \<and>
      (0 < x \<and> x < l1 \<longrightarrow> M x = - toFixed2 (r1 * x - w * x ^ 2 / 2)) \<and>
      (l1 < x \<and> x < l \<longrightarrow> M x = - toFixed2 (r1 * x + r2 * (x - l1) - w * x ^ 2 / 2)) \<and>
      M l1 = - toFixed2 (r1 * l1 - w * l1 ^ 2 / 2) \<and>
      r1 * l1 + r2 * (l1 - l1) - w * l1 ^ 2 / 2 = r1 * l1 - w * l1 ^ 2 / 2 \<and>
      (\<forall>e. tsu_getBendingMomentEquation beam load = Some e \<longrightarrow>
         ydata e = map (\<lambda>k. M (tsu_position l l1 r1 r3 w k)) [0..<length (ydata e)]))"
proof -
  let ?l1 = "primarySpan beam" and ?l2 = "secondarySpan beam"
  let ?l = "?l1 + ?l2"
  let ?r1 = "tsu_r1 load ?l1 ?l2" and ?r2 = "tsu_r2 load ?l1 ?l2" and ?r3 = "tsu_r3 load ?l1 ?l2"
  let ?M = "\<lambda>x. calculateRoundedValue x ?l ?l1 ?r1 load ?r2"
  have ends: "?M 0 = 0" "?M ?l = 0"
    by (simp_all add: calculateRoundedValue_def)
  have left: "?M x = - toFixed2 (?r1 * x - load * x ^ 2 / 2)" if "0 < x" "x < ?l1"
    using that assms by (simp add: calculateRoundedValue_def)
  have right: "?M x = - toFixed2 (?r1 * x + ?r2 * (x - ?l1) - load * x ^ 2 / 2)" if "?l1 < x" "x < ?l"
    using that assms by (simp add: calculateRoundedValue_def)
  have support: "?M ?l1 = - toFixed2 (?r1 * ?l1 - load * ?l1 ^ 2 / 2)"
    using assms by (simp add: calculateRoundedValue_def)
  have curve: "ydata e = map (\<lambda>k. ?M (tsu_position ?l ?l1 ?r1 ?r3 load k)) [0..<length (ydata e)]"
    if "tsu_getBendingMomentEquation beam load = Some e" for e
  proof -
    from that obtain t where
      t: "tsu_loop (\<lambda>i m. calculateRoundedValue m ?l ?l1 ?r1 load ?r2) ?l ?l1 ?r1 ?r3 load = Some t"
      and e: "e = \<lparr>analys = ''bendingmoment'', xdata = rev (st_xarray t), ydata = rev (st_yarray t)\<rparr>"
      by (auto simp: tsu_getBendingMomentEquation_def Let_def)
    from tsu_loop_curve(3) [OF t] show ?thesis
      unfolding e by (simp add: toFixed2_calculateRoundedValue)
  qed
  from ends left right support curve show ?thesis
    unfolding Let_def by simp
qed

text \<open>
  C5 as stated fails at the second sample of the beam with spans \<open>5\<close> and \<open>5\<close> under
  the load \<open>1\<close>: the position is \<open>1 / 10\<close>, the claimed value is
  \<open>- (r1 * x - w * x\<^sup>2 / 2) = - 73 / 400\<close>, the computed value is \<open>- 9 / 50\<close>.
\<close>

theorem bending_value_unrounded_counterexample:
  "tsu_position 10 5 (tsu_r1 1 5 5) (tsu_r3 1 5 5) 1 1 = 1 / 10 \<and>
   - (tsu_r1 1 5 5 * (1 / 10) - 1 * (1 / 10) ^ 2 / 2) = - (73 / 400) \<and>
   calculateRoundedValue (1 / 10) 10 5 (tsu_r1 1 5 5) 1 (tsu_r2 1 5 5) = - (9 / 50)"
  by (simp add: r_5_5 tsu_position_def tsu_step_eq calculateRoundedValue_def power2_eq_square
      toFixed2_73_400)

theorem bending_value_rounded_witness:
  "0 < primarySpan \<lparr>primarySpan = 5, secondarySpan = 5,
       material = \<lparr>name = ''steel'', EI = 2000000000\<rparr>, j2 = 1\<rparr> \<and>
   0 < secondarySpan \<lparr>primarySpan = 5, secondarySpan = 5,
       material = \<lparr>name = ''steel'', EI = 2000000000\<rparr>, j2 = 1\<rparr> \<and>
   (0 :: rat) < 1 / 10 \<and> (1 / 10 :: rat) < 5 \<and>
   calculateRoundedValue (1 / 10) 10 5 (15 / 8) 1 (25 / 4) = - toFixed2 (73 / 400) \<and>
   (5 :: rat) < 6 \<and> (6 :: rat) < 10 \<and>
   calculateRoundedValue 6 10 5 (15 / 8) 1 (25 / 4) = - toFixed2 (- (1 / 2)) \<and>
   (\<exists>e. tsu_getBendingMomentEquation \<lparr>primarySpan = 5, secondarySpan = 5,
       material = \<lparr>name = ''steel'', EI = 2000000000\<rparr>, j2 = 1\<rparr> 1 = Some e \<and>
      ydata e = map (\<lambda>k. calculateRoundedValue (tsu_position 10 5 (15 / 8) (15 / 8) 1 k)
                    10 5 (15 / 8) 1 (25 / 4)) [0..<length (ydata e)])"
proof -
  let ?b = "\<lparr>primarySpan = 5, secondarySpan = 5,
       material = \<lparr>name = ''steel'', EI = 2000000000\<rparr>, j2 = 1\<rparr>"
  have h: "0 < primarySpan ?b" "0 < secondarySpan ?b" by simp_all
  from tsu_loop_terminates [of 5 5 1 "\<lambda>i m. calculateRoundedValue m 10 5 (15 / 8) 1 (25 / 4)"]
  obtain e where e: "tsu_getBendingMomentEquation ?b 1 = Some e"
    by (auto simp: tsu_getBendingMomentEquation_def Let_def r_5_5)
  have a: "calculateRoundedValue (1 / 10) 10 5 (15 / 8) 1 (25 / 4) = - toFixed2 (73 / 400)"
    using bending_value_rounded [OF h, of 1 "1 / 10"]
    by (simp add: Let_def r_5_5 power2_eq_square)
  have b: "calculateRoundedValue 6 10 5 (15 / 8) 1 (25 / 4) = - toFixed2 (- (1 / 2))"
    using bending_value_rounded [OF h, of 1 6]
    by (simp add: Let_def r_5_5 power2_eq_square)
  have c: "ydata e = map (\<lambda>k. calculateRoundedValue (tsu_position 10 5 (15 / 8) (15 / 8) 1 k)
                    10 5 (15 / 8) 1 (25 / 4)) [0..<length (ydata e)]"
    using bending_value_rounded [OF h, of 1 0] e
    by (simp add: Let_def r_5_5)
  from h a b c e show ?thesis by simp
qed





text \<open>
  C8. In a curve the two-span deflection method returns, the sample with index \<open>k\<close>
  is taken at the position \<^verbatim>\<open>m\<close> of iteration \<open>k\<close> and its value is computed by
  \<^verbatim>\<open>calculatePoint1\<close> when \<open>k \<le> 11\<close> and by \<^verbatim>\<open>calculatePoint2\<close> otherwise: the
  choice reads the index only, not the position. (The spans are taken positive and
  the rigidity non-zero, so that the quotients of the reactions and of the two
  formulas are numbers.)
\<close>

theorem deflection_formula_by_index:
  assumes "tsu_getDeflectionEquation beam load = Some e" and "EI (material beam) \<noteq> 0"
    and "0 < primarySpan beam" and "0 < secondarySpan beam"
  shows
    "(let j = j2 beam; w = load; l1 = primarySpan beam; l2 = secondarySpan beam;
          Ei = EI (material beam); l = l1 + l2;
          r1 = tsu_r1 w l1 l2; r3 = tsu_r3 w l1 l2; r2 = tsu_r2 w l1 l2;
          pos = tsu_position l l1 r1 r3 w in
      length (xdata e) = length (ydata e) \<and>
      xdata e = map (\<lambda>k. toFixed2 (pos k)) [0..<length (ydata e)] \<and>
      ydata e =
        map (\<lambda>k. toFixed2 (if k \<le> 11 then calculatePoint1 (pos k) Ei r1 w l1 j
                            else calculatePoint2 (pos k) r1 r2 l1 w Ei j))
          [0..<length (ydata e)])"
proof -
  let ?l1 = "primarySpan beam" and ?l2 = "secondarySpan beam"
  let ?l = "?l1 + ?l2"
  let ?r1 = "tsu_r1 load ?l1 ?l2" and ?r2 = "tsu_r2 load ?l1 ?l2" and ?r3 = "tsu_r3 load ?l1 ?l2"
  let ?yf = "deflection_y (EI (material beam)) ?r1 ?r2 load ?l1 (j2 beam)"
  from assms(1) obtain t where t: "tsu_loop ?yf ?l ?l1 ?r1 ?r3 load = Some t"
    and e: "e = \<lparr>analys = ''deflection'', xdata = rev (st_xarray t), ydata = rev (st_yarray t)\<rparr>"
    by (auto simp: tsu_getDeflectionEquation_def Let_def)
  note c = tsu_loop_curve(1-3) [OF t]
  show ?thesis
    unfolding Let_def e using c by (simp add: deflection_y_def)
qed

theorem deflection_formula_by_index_witness:
  "\<exists>e. tsu_getDeflectionEquation \<lparr>primarySpan = 5, secondarySpan = 5,
          material = \<lparr>name = ''steel'', EI = 2000000000\<rparr>, j2 = 1\<rparr> 1 = Some e \<and>
     xdata e ! 12 = 6 / 5 \<and>
     ydata e ! 12 = toFixed2 (calculatePoint2 (6 / 5) (15 / 8) (25 / 4) 5 1 2000000000 1)"
proof -
  let ?b = "\<lparr>primarySpan = 5, secondarySpan = 5,
          material = \<lparr>name = ''steel'', EI = 2000000000\<rparr>, j2 = 1\<rparr>"
  let ?yf = "deflection_y 2000000000 (15 / 8) (25 / 4) 1 5 1"
  from tsu_loop_terminates [of 5 5 1 ?yf] obtain t where
    t: "tsu_loop ?yf 10 5 (15 / 8) (15 / 8) 1 = Some t"
    by (auto simp: r_5_5)
  then have e: "tsu_getDeflectionEquation ?b 1 =
      Some \<lparr>analys = ''deflection'', xdata = rev (st_xarray t), ydata = rev (st_yarray t)\<rparr>"
    (is "_ = Some ?e")
    by (simp add: tsu_getDeflectionEquation_def Let_def r_5_5)
  have len: "12 < length (ydata ?e)"
    using tsu_loop_curve(4) [OF t, of 12] run_5_5_upto by simp
  have p12: "tsu_position 10 5 (15 / 8) (15 / 8) 1 12 = 6 / 5"
    by (simp add: tsu_position_def run_5_5)
  have r: "toFixed2 (6 / 5) = 6 / 5" using toFixed2_hundredths [of 120] by simp
  have nth: "map f [0..<n] ! 12 = f 12" if "12 < n" for f :: "nat \<Rightarrow> rat" and n
    using that by simp
  have ei: "EI (material ?b) \<noteq> 0" "0 < primarySpan ?b" "0 < secondarySpan ?b" by simp_all
  from deflection_formula_by_index [OF e ei]
  have x: "xdata ?e = map (\<lambda>k. toFixed2 (tsu_position 10 5 (15 / 8) (15 / 8) 1 k))
          [0..<length (ydata ?e)]"
    and y: "ydata ?e = map (\<lambda>k. toFixed2 (if k \<le> 11
            then calculatePoint1 (tsu_position 10 5 (15 / 8) (15 / 8) 1 k) 2000000000 (15 / 8) 1 5 1
            else calculatePoint2 (tsu_position 10 5 (15 / 8) (15 / 8) 1 k) (15 / 8) (25 / 4) 5 1
              2000000000 1)) [0..<length (ydata ?e)]"
    by (simp_all add: Let_def r_5_5)
  have "xdata ?e ! 12 = 6 / 5"
    by (subst x, subst nth [OF len]) (simp only: p12 r)
  moreover have "ydata ?e ! 12 = toFixed2 (calculatePoint2 (6 / 5) (15 / 8) (25 / 4) 5 1 2000000000 1)"
    by (subst y, subst nth [OF len]) (simp add: p12)
  ultimately have "xdata ?e ! 12 = 6 / 5 \<and>
      ydata ?e ! 12 = toFixed2 (calculatePoint2 (6 / 5) (15 / 8) (25 / 4) 5 1 2000000000 1)"
    by (rule conjI)
  with e show ?thesis by blast
qed



text \<open>
  C10, evaluated at the condition string \<^verbatim>\<open>'constructor'\<close>: it is neither of the two
  registered conditions, the lookup finds the inherited \<^verbatim>\<open>Object.prototype.constructor\<close>,
  the guard \<^verbatim>\<open>if (analyzer)\<close> passes, and each facade method throws the \<^verbatim>\<open>TypeError\<close>
  of calling a missing method, not the error \<^verbatim>\<open>'Invalid condition'\<close>.
\<close>

theorem facade_inherited_name:
  "getDeflection b w ''constructor'' = Some (Inl NotAFunction) \<and>
   getBendingMoment b w ''constructor'' = Some (Inl NotAFunction) \<and>
   getShearForce b w ''constructor'' = Some (Inl NotAFunction)"
  by (simp add: getDeflection_def getBendingMoment_def getShearForce_def dispatch_def
      analyzer_lookup_def object_prototype_names_def)

end
